theory Spec2Isabelle
  imports Complex_Main "HOL-Library.Sublist" "HOL-Library.Multiset"
begin

section \<open>Python strings\<close>

text \<open>
  A Python \<open>str\<close> is modelled as a \<open>string\<close>: a list of 8-bit characters, read as the
  code points below 256. The helpers below are the \<open>str\<close> methods the sources call.
\<close>

text \<open>\<open>c.isspace()\<close> on the code points below 256.\<close>

definition is_space :: "char \<Rightarrow> bool" where
  "is_space c = (c \<in> set [CHR 0x09, CHR 0x0A, CHR 0x0B, CHR 0x0C, CHR 0x0D,
                          CHR 0x1C, CHR 0x1D, CHR 0x1E, CHR 0x1F, CHR 0x20,
                          CHR 0x85, CHR 0xA0])"

text \<open>
  \<open>s.split()\<close> without arguments: the maximal runs of non-whitespace characters, in
  order. \<open>split_acc w s\<close> scans \<open>s\<close> with the word \<open>w\<close> read so far.
\<close>

fun split_acc :: "string \<Rightarrow> string \<Rightarrow> string list" where
  "split_acc w [] = (if w = [] then [] else [w])"
| "split_acc w (c # cs) =
     (if is_space c then (if w = [] then split_acc [] cs else w # split_acc [] cs)
      else split_acc (w @ [c]) cs)"

definition py_split :: "string \<Rightarrow> string list" where
  "py_split s = split_acc [] s"

text \<open>\<open>s.strip()\<close>: whitespace removed at both ends.\<close>

definition py_strip :: "string \<Rightarrow> string" where
  "py_strip s = rev (dropWhile is_space (rev (dropWhile is_space s)))"

text \<open>\<open>s.lower()\<close>: the upper-case letters below 256 are A-Z and 0xC0-0xDE without 0xD7.\<close>

definition py_lower_char :: "char \<Rightarrow> char" where
  "py_lower_char c =
     (let n = (of_char c :: nat)
      in if (65 \<le> n \<and> n \<le> 90) \<or> (192 \<le> n \<and> n \<le> 222 \<and> n \<noteq> 215)
         then char_of (n + 32) else c)"

definition py_lower :: "string \<Rightarrow> string" where
  "py_lower s = map py_lower_char s"

text \<open>\<open>a in b\<close> for two strings: \<open>a\<close> occurs in \<open>b\<close> as a contiguous piece.\<close>

fun py_in :: "string \<Rightarrow> string \<Rightarrow> bool" where
  "py_in a [] = (a = [])"
| "py_in a (c # cs) = (prefix a (c # cs) \<or> py_in a cs)"

text \<open>\<open>sep.join(xs)\<close>.\<close>

fun py_join :: "string \<Rightarrow> string list \<Rightarrow> string" where
  "py_join sep [] = []"
| "py_join sep [x] = x"
| "py_join sep (x # y # ys) = x @ sep @ py_join sep (y # ys)"

section \<open>The news reading system (rag\_system.py)\<close>

text \<open>
  An exception raised by a collaborator is a value: \<open>PyException msg\<close> stands for a
  Python exception \<open>e\<close> with \<open>str(e) = msg\<close>.
\<close>

datatype py_exception = PyException string

text \<open>
  The fields of \<open>NewsReadingSystem\<close> that the reading and question paths use.
  \<open>model\<close> is the generation collaborator (\<open>None\<close> when it was never set up): it maps a
  prompt to the text of the response or raises. \<open>vector_store\<close> is the FAISS store
  (\<open>None\<close> when its construction failed in \<open>setup\<close>): \<open>similarity_search(question, k)\<close>
  returns the page contents of the documents found or raises.
\<close>

record NewsReadingSystem =
  language :: string
  sentences :: "string list"
  current_position :: nat
  chunks :: "string list"
  model :: "(string \<Rightarrow> py_exception + string) option"
  vector_store :: "(string \<Rightarrow> nat \<Rightarrow> py_exception + string list) option"

subsection \<open>Retrieval: find\_relevant\_chunks\<close>

definition stop_words :: "string list" where
  "stop_words = [''the'', ''is'', ''are'', ''was'', ''were'', ''what'', ''how'', ''why'',
                 ''when'', ''where'', ''who'', ''a'', ''an'', ''of'', ''to'']"

text \<open>
  \<open>set(question.lower().split()) - stop_words\<close>. The Python set is a duplicate-free list
  here; the loop over it only adds to a score, so its iteration order does not matter.
\<close>

definition question_words :: "string \<Rightarrow> string list" where
  "question_words question =
     filter (\<lambda>w. w \<notin> set stop_words) (remdups (py_split (py_lower question)))"

text \<open>One round of the loop \<open>for word in question_words\<close> on the running score.\<close>

definition score_word :: "string \<Rightarrow> string \<Rightarrow> nat \<Rightarrow> nat" where
  "score_word chunk_lower word score =
     (if py_in word chunk_lower then score + 3
      else if list_ex (\<lambda>chunk_word. py_in word chunk_word) (py_split chunk_lower)
           then score + 1
      else score)"

definition chunk_score :: "string list \<Rightarrow> string \<Rightarrow> nat" where
  "chunk_score qwords chunk = fold (score_word (py_lower chunk)) qwords 0"

text \<open>
  The keyword branch. \<open>scored_chunks.sort(reverse=True, key=lambda x: x[0])\<close> is a stable
  sort by descending score: \<open>sort_key\<close> is stable, and the key is the negated score.
\<close>

definition scored_chunks :: "string list \<Rightarrow> string list \<Rightarrow> (nat \<times> string) list" where
  "scored_chunks qwords cs =
     filter (\<lambda>sc. fst sc > 0) (map (\<lambda>chunk. (chunk_score qwords chunk, chunk)) cs)"

definition keyword_chunks :: "string list \<Rightarrow> string \<Rightarrow> nat \<Rightarrow> string list" where
  "keyword_chunks cs question top_k =
     (let sorted_chunks =
            sort_key (\<lambda>sc. - int (fst sc)) (scored_chunks (question_words question) cs);
          relevant_chunks = map snd (take top_k sorted_chunks)
      in if relevant_chunks = [] then take top_k cs else relevant_chunks)"

text \<open>
  \<open>find_relevant_chunks\<close>: the whole body stands in a \<open>try\<close>; only the similarity search
  can raise, and the handler returns the first \<open>top_k\<close> chunks.
\<close>

definition find_relevant_chunks :: "NewsReadingSystem \<Rightarrow> string \<Rightarrow> nat \<Rightarrow> string list" where
  "find_relevant_chunks ns question top_k =
     (case vector_store ns of
        Some vs \<Rightarrow>
          (case vs question top_k of
             Inr docs \<Rightarrow> docs
           | Inl e \<Rightarrow> (if chunks ns \<noteq> [] then take top_k (chunks ns) else []))
      | None \<Rightarrow> keyword_chunks (chunks ns) question top_k)"

subsection \<open>The position tracker\<close>

text \<open>
  \<open>get_next_sentence\<close> returns the pair \<open>(sentence, has_more)\<close> together with the
  updated object; Python's \<open>None\<close> is \<open>None\<close>.
\<close>

definition get_next_sentence ::
  "NewsReadingSystem \<Rightarrow> (string option \<times> bool) \<times> NewsReadingSystem" where
  "get_next_sentence ns =
     (if current_position ns < length (sentences ns) then
        let sentence = sentences ns ! current_position ns;
            ns' = ns\<lparr>current_position := current_position ns + 1\<rparr>
        in ((Some sentence, current_position ns' < length (sentences ns')), ns')
      else ((None, False), ns))"

text \<open>The object after \<open>k\<close> successive calls of \<open>get_next_sentence\<close>.\<close>

fun after_calls :: "nat \<Rightarrow> NewsReadingSystem \<Rightarrow> NewsReadingSystem" where
  "after_calls 0 ns = ns"
| "after_calls (Suc k) ns = after_calls k (snd (get_next_sentence ns))"

definition get_remaining_text :: "NewsReadingSystem \<Rightarrow> string" where
  "get_remaining_text ns =
     (if current_position ns < length (sentences ns)
      then py_join '' '' (drop (current_position ns) (sentences ns)) else [])"

definition reset_position :: "NewsReadingSystem \<Rightarrow> NewsReadingSystem" where
  "reset_position ns = ns\<lparr>current_position := 0\<rparr>"

text \<open>
  \<open>get_progress\<close> is computed exactly here; the code computes it in floating point, so
  its value can differ from this one in the last place. The value is only carried in
  the \<open>news_sentence\<close> event.
\<close>

definition get_progress :: "NewsReadingSystem \<Rightarrow> real" where
  "get_progress ns =
     (if length (sentences ns) > 0
      then (real (current_position ns) / real (length (sentences ns))) * 100 else 0)"

subsection \<open>The question answerer: ask\_question\<close>

definition not_initialized_message :: string where
  "not_initialized_message = ''System not initialized. Please check the PDF and API key.''"

definition no_information_message :: string where
  "no_information_message = ''I don't have information about that in the current document.''"

definition quota_message :: string where
  "quota_message = ''I apologize, but the AI service is temporarily unavailable due to quota limits. Please wait a minute and try again.''"

definition technical_message :: string where
  "technical_message = ''I apologize, but I'm experiencing technical difficulties. Please try again.''"

definition answer_prompt :: "string \<Rightarrow> string \<Rightarrow> string" where
  \<open>answer_prompt context question = py_join [CHR 0x0A]
     [''You are a professional news anchor answering questions based on official documents.'',
      [],
      ''Official Document Content:'',
      context,
      [],
      ''Viewer Question: '' @ question,
      [],
      ''Instructions:'',
      ''1. Carefully read and analyze the document content above'',
      ''2. If the answer IS in the document:'',
      ''   - Provide the COMPLETE information (don't summarize if it's a list)'',
      ''   - For lists, include ALL items mentioned'',
      ''   - Be thorough and detailed'',
      ''   - Use professional language: "According to the document..." or "The official records indicate..."'',
      ''3. If the answer is NOT in the document:'',
      ''   - Clearly state: "I don't have that specific information in this document."'',
      ''4. Be factual, professional, and confident like a news anchor'',
      ''5. Keep tone natural and conversational but authoritative'',
      [],
      ''Your complete answer:'']\<close>

text \<open>
  The body of the \<open>try\<close> block. The result is the value returned or the exception
  raised, together with the prompts handed to \<open>model.generate_content\<close>, in order.
\<close>

definition ask_question_body ::
  "NewsReadingSystem \<Rightarrow> string \<Rightarrow> (py_exception + string) \<times> string list" where
  "ask_question_body ns question =
     (case model ns of
        None \<Rightarrow> (Inr not_initialized_message, [])
      | Some generate_content \<Rightarrow>
          if chunks ns = [] then (Inr not_initialized_message, [])
          else
            let relevant_chunks = find_relevant_chunks ns question 5
            in if relevant_chunks = [] then (Inr no_information_message, [])
               else
                 let context = py_join [CHR 0x0A, CHR 0x0A] relevant_chunks;
                     prompt = answer_prompt context question
                 in (case generate_content prompt of
                       Inr response_text \<Rightarrow> (Inr (py_strip response_text), [prompt])
                     | Inl e \<Rightarrow> (Inl e, [prompt])))"

text \<open>The \<open>except Exception as e\<close> handler of \<open>ask_question\<close>.\<close>

definition question_error_message :: "py_exception \<Rightarrow> string" where
  "question_error_message e =
     (case e of PyException error_msg \<Rightarrow>
        if py_in ''429'' error_msg \<or> py_in ''quota'' (py_lower error_msg)
        then quota_message else technical_message)"

definition ask_question :: "NewsReadingSystem \<Rightarrow> string \<Rightarrow> string \<times> string list" where
  "ask_question ns question =
     (case ask_question_body ns question of
        (Inr answer, prompts) \<Rightarrow> (answer, prompts)
      | (Inl e, prompts) \<Rightarrow> (question_error_message e, prompts))"

text \<open>The spec's scenario document: three sentences, cursor at the start.\<close>

definition three_sentences :: NewsReadingSystem where
  "three_sentences =
     \<lparr>language = ''english'',
      sentences = [''A cat sat on the mat quietly.'',
                   ''Dogs barked loudly outside the house.'',
                   ''The weather was sunny and warm today.''],
      current_position = 0, chunks = [], model = None, vector_store = None\<rparr>"

subsection \<open>The module-level interface of rag\_system.py\<close>

definition unavailable_message :: string where
  "unavailable_message = ''I apologize, but the system is currently unavailable. Please check the PDF file path and try again.''"

definition unable_message :: string where
  "unable_message = ''I'm unable to access the document at this time. Please ensure the PDF file is available.''"

text \<open>
  \<open>get_news_intro\<close> looks the lower-cased language up in a table of five introductions
  and falls back to the English one. The introductions themselves are text outside
  the 8-bit strings used here, so an introduction is named by the key of its entry;
  \<open>Hello\<close> is the module's text for an uninitialised system.
\<close>

datatype intro = IntroIn string | Hello



section \<open>The broadcast server (working\_voice\_addo\_fixed.py)\<close>

text \<open>
  A socket session is named by its \<open>request.sid\<close>. The events are those the handlers
  and the narration thread emit, each to the room of one session; the events of the
  speech collaborator (\<open>speech_started\<close>, \<open>speech_ended\<close>) are not recorded.
\<close>

type_synonym sid = string

datatype event =
    LanguageSet string string
  | NewsIntro intro
  | NewsSentence string bool real
  | NewsCompleted
  | ReadingStarted
  | QuestionModeEnabled
  | QuestionAnswer string string
  | AskContinue string
  | ReadingResumed
  | ReadingStopped

text \<open>
  The program points of \<open>read_news_continuously\<close>, the thread that every
  \<open>start_reading\<close> spawns. \<open>Speaking s has_more\<close> is the thread inside
  \<open>news_anchor.speak(s, ...)\<close>: the call returns when the playback has finished or was
  cancelled, and writes no variable of the module.
\<close>

datatype pc =
    AtIntro
  | IntroCheck
  | IntroSpeaking
  | WhileCheck
  | PauseCheck
  | Pull
  | SpeakCheck string bool
  | Speaking string bool
  | AfterSpeak bool
  | Tail bool
  | Finished

text \<open>
  The state of the process: the module globals of working\_voice\_addo\_fixed.py
  (\<open>current_language\<close>, \<open>is_reading_news\<close>, \<open>is_paused_for_question\<close>,
  \<open>speech_cancelled\<close>, \<open>news_anchor\<close>, of which only its presence matters) and of
  rag\_system.py (\<open>news_system\<close>), the narration threads with the room each emits to,
  and the events emitted so far. \<open>loader\<close> is the environment of \<open>initialize_rag\<close>: what
  constructing \<open>NewsReadingSystem(PDF_PATH, language)\<close> yields, \<open>None\<close> when the file is
  missing or \<open>setup\<close> raises. \<open>load_attempts\<close> and \<open>prompts_sent\<close> record the calls of
  \<open>initialize_rag\<close> and of the generation service.
\<close>

record server =
  current_language :: string
  is_reading_news :: bool
  is_paused_for_question :: bool
  speech_cancelled :: bool
  news_anchor :: bool
  news_system :: "NewsReadingSystem option"
  loader :: "string \<Rightarrow> NewsReadingSystem option"
  threads :: "(sid \<times> pc) list"
  emitted :: "(sid \<times> event) list"
  load_attempts :: "string list"
  prompts_sent :: "string list"

definition emit :: "sid \<Rightarrow> event \<Rightarrow> server \<Rightarrow> server" where
  "emit room ev g = g\<lparr>emitted := emitted g @ [(room, ev)]\<rparr>"

subsection \<open>The module-level functions of rag\_system.py on the global news\_system\<close>

definition initialize_rag :: "string \<Rightarrow> server \<Rightarrow> bool \<times> server" where
  "initialize_rag lang g =
     (let g1 = g\<lparr>load_attempts := load_attempts g @ [lang]\<rparr>
      in case loader g lang of
           None \<Rightarrow> (False, g1)
         | Some ns \<Rightarrow> (True, g1\<lparr>news_system := Some ns\<rparr>))"

definition ask_pdf_question :: "string \<Rightarrow> server \<Rightarrow> string \<times> server" where
  "ask_pdf_question question g =
     (let (ok, g1) = (case news_system g of
                        None \<Rightarrow> initialize_rag ''english'' g
                      | Some ns \<Rightarrow> (True, g))
      in if \<not> ok then (unavailable_message, g1)
         else (case news_system g1 of
                 Some ns \<Rightarrow>
                   (let (answer, prompts) = ask_question ns question
                    in (answer, g1\<lparr>prompts_sent := prompts_sent g1 @ prompts\<rparr>))
               | None \<Rightarrow> (unable_message, g1)))"


definition module_get_next_sentence :: "server \<Rightarrow> (string option \<times> bool) \<times> server" where
  "module_get_next_sentence g =
     (case news_system g of
        Some ns \<Rightarrow> (let (r, ns') = get_next_sentence ns in (r, g\<lparr>news_system := Some ns'\<rparr>))
      | None \<Rightarrow> ((None, False), g))"

definition module_get_remaining_text :: "server \<Rightarrow> string" where
  "module_get_remaining_text g =
     (case news_system g of Some ns \<Rightarrow> get_remaining_text ns | None \<Rightarrow> [])"

definition reset_reading :: "server \<Rightarrow> server" where
  "reset_reading g =
     (case news_system g of
        Some ns \<Rightarrow> g\<lparr>news_system := Some (reset_position ns)\<rparr>
      | None \<Rightarrow> g)"

definition module_get_progress :: "server \<Rightarrow> real" where
  "module_get_progress g = (case news_system g of Some ns \<Rightarrow> get_progress ns | None \<Rightarrow> 0)"

subsection \<open>The socket handlers\<close>

definition handle_set_language :: "sid \<Rightarrow> string \<Rightarrow> server \<Rightarrow> server" where
  "handle_set_language session new_language g =
     (if new_language \<noteq> current_language g then
        let g1 = g\<lparr>current_language := new_language\<rparr>;
            (ok, g2) = initialize_rag (current_language g1) g1
        in emit session
             (LanguageSet (current_language g2) (if ok then ''ready'' else ''error'')) g2
      else emit session (LanguageSet (current_language g) ''ready'') g)"

text \<open>
  \<open>handle_start_reading\<close> is one step here: the new thread takes its first step after
  \<open>reading_started\<close> is emitted. In the code the thread is started before that event
  is emitted, so the thread's first events can also come before it.
\<close>

definition handle_start_reading :: "sid \<Rightarrow> server \<Rightarrow> server" where
  "handle_start_reading session g =
     (let g1 = g\<lparr>is_reading_news := True, is_paused_for_question := False,
                 speech_cancelled := False\<rparr>;
          g2 = reset_reading g1;
          g3 = g2\<lparr>threads := threads g2 @ [(session, AtIntro)]\<rparr>
      in emit session ReadingStarted g3)"

definition handle_ask_question :: "sid \<Rightarrow> server \<Rightarrow> server" where
  "handle_ask_question session g =
     emit session QuestionModeEnabled
       (g\<lparr>is_paused_for_question := True, speech_cancelled := True\<rparr>)"

definition continue_languages :: "string list" where
  "continue_languages = [''english'', ''hindi'', ''marathi'']"

text \<open>
  \<open>handle_user_question\<close>: the two calls of \<open>news_anchor.speak\<close> write no variable of the
  module. The continuation prompt is named by the key of its table entry.
\<close>

definition handle_user_question :: "sid \<Rightarrow> string \<Rightarrow> server \<Rightarrow> server" where
  "handle_user_question session raw_question g =
     (let question = py_strip raw_question
      in if question = [] then g
         else
           let (answer, g1) = ask_pdf_question question g;
               g2 = emit session (QuestionAnswer question answer) g1;
               g3 = (if news_anchor g2 then g2\<lparr>speech_cancelled := False\<rparr> else g2);
               prompt = (if current_language g3 \<in> set continue_languages
                         then current_language g3 else ''english'')
           in emit session (AskContinue prompt) g3)"

definition handle_continue_reading :: "sid \<Rightarrow> string \<Rightarrow> server \<Rightarrow> server" where
  "handle_continue_reading session response g =
     emit session ReadingStarted
       (emit session ReadingResumed
          (g\<lparr>is_paused_for_question := False, speech_cancelled := False,
             is_reading_news := True\<rparr>))"

definition handle_stop_reading :: "sid \<Rightarrow> server \<Rightarrow> server" where
  "handle_stop_reading session g =
     emit session ReadingStopped (g\<lparr>is_reading_news := False, speech_cancelled := True\<rparr>)"

definition handle_cancel_session :: "sid \<Rightarrow> server \<Rightarrow> server" where
  "handle_cancel_session session g = g\<lparr>speech_cancelled := True, is_reading_news := False\<rparr>"

datatype command =
    SetLanguage string
  | StartReading
  | AskQuestion
  | UserQuestion string
  | ContinueReading string
  | StopReading
  | CancelSession

fun handle :: "sid \<Rightarrow> command \<Rightarrow> server \<Rightarrow> server" where
  "handle session (SetLanguage l) g = handle_set_language session l g"
| "handle session StartReading g = handle_start_reading session g"
| "handle session AskQuestion g = handle_ask_question session g"
| "handle session (UserQuestion q) g = handle_user_question session q g"
| "handle session (ContinueReading r) g = handle_continue_reading session r g"
| "handle session StopReading g = handle_stop_reading session g"
| "handle session CancelSession g = handle_cancel_session session g"

subsection \<open>The narration thread\<close>



text \<open>The sentences dispatched so far, in the order of their \<open>news_sentence\<close> events.\<close>

fun dispatched_of :: "(sid \<times> event) list \<Rightarrow> string list" where
  "dispatched_of [] = []"
| "dispatched_of ((room, NewsSentence s has_more progress) # es) = s # dispatched_of es"
| "dispatched_of (e # es) = dispatched_of es"

definition dispatched :: "server \<Rightarrow> string list" where
  "dispatched g = dispatched_of (emitted g)"

section \<open>The pacing calculator (lip\_sync\_manager.py)\<close>

text \<open>The constants that \<open>LipSyncManager.__init__\<close> sets; nothing assigns them again.\<close>

definition talk_video_duration :: real where "talk_video_duration = 5"
definition base_wpm :: int where "base_wpm = 140"
definition min_wpm :: int where "min_wpm = 110"
definition max_wpm :: int where "max_wpm = 170"

text \<open>
  Python's floats are modelled as reals, with the rounding of every floating-point
  operation kept as a parameter \<open>fl\<close>: the float that an operation returns is \<open>fl\<close> of
  its exact result. \<open>float_rounding\<close> states what the model uses of it: rounding is
  monotone and leaves 5 unchanged.
\<close>

definition float_rounding :: "(real \<Rightarrow> real) \<Rightarrow> bool" where
  "float_rounding fl = ((\<forall>x y. x \<le> y \<longrightarrow> fl x \<le> fl y) \<and> fl 5 = 5)"

text \<open>\<open>round(x)\<close> of a float: to the nearest integer, a tie to the even one.\<close>

definition py_round :: "real \<Rightarrow> int" where
  "py_round x =
     (let f = \<lfloor>x\<rfloor>; d = x - of_int f
      in if d < 1 / 2 then f else if 1 / 2 < d then f + 1
         else if even f then f else f + 1)"

text \<open>\<open>int(x)\<close> of a float: truncation towards zero.\<close>

definition py_int :: "real \<Rightarrow> int" where
  "py_int x = (if 0 \<le> x then \<lfloor>x\<rfloor> else \<lceil>x\<rceil>)"

definition estimate_speech_duration :: "(real \<Rightarrow> real) \<Rightarrow> string \<Rightarrow> real" where
  "estimate_speech_duration fl text =
     (let words = length (py_split text)
      in fl (fl (real words / of_int base_wpm) * 60))"

text \<open>
  \<open>calculate_optimal_rate\<close>. The division by \<open>target_duration\<close> is the one place where
  the function can raise.
\<close>

definition calculate_optimal_rate :: "(real \<Rightarrow> real) \<Rightarrow> string \<Rightarrow> py_exception + int" where
  "calculate_optimal_rate fl text =
     (let words = length (py_split text)
      in if words \<le> 5 then Inr base_wpm
         else
           let estimated_duration = estimate_speech_duration fl text;
               num_loops = max 1 (py_round (fl (estimated_duration / talk_video_duration)));
               target_duration = fl (of_int num_loops * talk_video_duration)
           in if target_duration = 0 then Inl (PyException ''float division by zero'')
              else
                let required_wpm = fl (fl (real words / target_duration) * 60);
                    optimal_wpm = max (of_int min_wpm) (min (of_int max_wpm) required_wpm)
                in Inr (py_int optimal_wpm))"

definition get_video_loops_needed :: "(real \<Rightarrow> real) \<Rightarrow> string \<Rightarrow> int" where
  "get_video_loops_needed fl text =
     max 1 (py_round (fl (estimate_speech_duration fl text / talk_video_duration)))"

subsection \<open>split\_text\_for\_natural\_pauses\<close>

definition is_terminator :: "char \<Rightarrow> bool" where
  "is_terminator c = (c \<in> set ''.!?'')"

text \<open>
  \<open>re.split(r'[.!?]+', text)\<close>: the pieces between the maximal runs of terminators,
  the empty pieces at the two ends included. \<open>re_split_acc w in_run s\<close> scans \<open>s\<close> with
  the piece \<open>w\<close> read so far; \<open>in_run\<close> says that the last character was a terminator.
\<close>

fun re_split_acc :: "string \<Rightarrow> bool \<Rightarrow> string \<Rightarrow> string list" where
  "re_split_acc w in_run [] = [w]"
| "re_split_acc w in_run (c # cs) =
     (if is_terminator c
      then (if in_run then re_split_acc [] True cs else w # re_split_acc [] True cs)
      else re_split_acc (w @ [c]) False cs)"

definition re_split_terminators :: "string \<Rightarrow> string list" where
  "re_split_terminators text = re_split_acc [] False text"

text \<open>\<open>[s.strip() for s in sentences if s.strip()]\<close>.\<close>

definition pause_sentences :: "string \<Rightarrow> string list" where
  "pause_sentences text =
     map py_strip (filter (\<lambda>s. py_strip s \<noteq> []) (re_split_terminators text))"

text \<open>
  The loop \<open>for sentence in sentences\<close> on the pair \<open>(chunks, current_chunk)\<close>; the
  list \<open>chunks\<close> of the source is \<open>chunk_list\<close> here.
\<close>

fun pause_loop :: "string list \<Rightarrow> string list \<Rightarrow> string \<Rightarrow> string list \<times> string" where
  "pause_loop [] chunk_list current_chunk = (chunk_list, current_chunk)"
| "pause_loop (sentence # rest) chunk_list current_chunk =
     (let test_chunk = (if current_chunk \<noteq> [] then current_chunk @ '' '' @ sentence
                        else sentence)
      in if length (py_split test_chunk) > 15
         then pause_loop rest
                (if current_chunk \<noteq> [] then chunk_list @ [py_strip current_chunk]
                 else chunk_list)
                sentence
         else pause_loop rest chunk_list test_chunk)"

definition close_chunk :: "string list \<times> string \<Rightarrow> string list" where
  "close_chunk st =
     (case st of (chunk_list, current_chunk) \<Rightarrow>
        if current_chunk \<noteq> [] then chunk_list @ [py_strip current_chunk] else chunk_list)"

definition split_text_for_natural_pauses :: "string \<Rightarrow> string list" where
  "split_text_for_natural_pauses text =
     (let chunk_list = close_chunk (pause_loop (pause_sentences text) [] [])
      in if chunk_list \<noteq> [] then chunk_list else [text])"

text \<open>A text without its whitespace.\<close>

definition squeeze :: "string \<Rightarrow> string" where
  "squeeze s = filter (\<lambda>c. \<not> is_space c) s"

section \<open>Example systems\<close>

text \<open>
  A system without a vector store (the keyword branch answers), one whose vector
  store finds nothing, one whose vector store raises, and one whose generation
  service raises a quota error.
\<close>

definition keyword_only_system :: NewsReadingSystem where
  "keyword_only_system =
     \<lparr>language = ''english'', sentences = [], current_position = 0,
      chunks = [''cats purr''],
      model = Some (\<lambda>prompt. Inr ''  Cats purr.  ''),
      vector_store = None\<rparr>"

definition empty_store_system :: NewsReadingSystem where
  "empty_store_system =
     \<lparr>language = ''english'', sentences = [], current_position = 0,
      chunks = [''cats purr''],
      model = Some (\<lambda>prompt. Inr ''  Cats purr.  ''),
      vector_store = Some (\<lambda>question k. Inr [])\<rparr>"

definition failing_store_system :: NewsReadingSystem where
  "failing_store_system =
     \<lparr>language = ''english'', sentences = [], current_position = 0,
      chunks = [''dogs bark'', ''cats purr''],
      model = None,
      vector_store = Some (\<lambda>question k. Inl (PyException ''embedding backend unavailable''))\<rparr>"

definition quota_system :: NewsReadingSystem where
  "quota_system =
     \<lparr>language = ''english'', sentences = [], current_position = 0,
      chunks = [''cats purr''],
      model = Some (\<lambda>prompt. Inl (PyException ''Resource exhausted: Quota exceeded'')),
      vector_store = None\<rparr>"

text \<open>
  The lifecycle states of the specification, read off the flags: the code keeps no
  state variable. A process that is not reading is idle or stopped.
\<close>

datatype lifecycle = Idle_or_Stopped | Reading | PausedForQuestion

definition lifecycle_of :: "server \<Rightarrow> lifecycle" where
  "lifecycle_of g =
     (if \<not> is_reading_news g then Idle_or_Stopped
      else if is_paused_for_question g then PausedForQuestion
      else Reading)"

text \<open>A process with a given document, flags all clear, nothing started.\<close>

definition fresh_server :: "NewsReadingSystem option \<Rightarrow> server" where
  "fresh_server doc =
     \<lparr>current_language = ''english'', is_reading_news = False,
      is_paused_for_question = False, speech_cancelled = False, news_anchor = True,
      news_system = doc, loader = (\<lambda>lang. None), threads = [], emitted = [],
      load_attempts = [], prompts_sent = []\<rparr>"

text \<open>A process paused for a question over the document whose generation service is out of quota.\<close>

definition paused_quota_server :: server where
  "paused_quota_server =
     (fresh_server (Some quota_system))
       \<lparr>is_reading_news := True, is_paused_for_question := True, speech_cancelled := True\<rparr>"

text \<open>
  What a session works with. The handlers and the narration thread of every session
  read and write the module globals and nothing is stored under a session name, so
  the state is the same whichever session asks for it.
\<close>

record session_view =
  view_cursor :: "nat option"
  view_sentences :: "string list option"
  view_chunks :: "string list option"
  view_language :: string
  view_paused :: bool
  view_cancelled :: bool
  view_lifecycle :: lifecycle

definition session_state :: "sid \<Rightarrow> server \<Rightarrow> session_view" where
  "session_state session g =
     \<lparr>view_cursor = map_option current_position (news_system g),
      view_sentences = map_option sentences (news_system g),
      view_chunks = map_option chunks (news_system g),
      view_language = current_language g,
      view_paused = is_paused_for_question g,
      view_cancelled = speech_cancelled g,
      view_lifecycle = lifecycle_of g\<rparr>"

text \<open>A process in which session \<open>B\<close> has started reading the three-sentence document.\<close>

definition b_reading_server :: server where
  "b_reading_server = handle ''B'' StartReading (fresh_server (Some three_sentences))"

subsection \<open>Interruption and resumption\<close>













text \<open>Example texts for the pause splitter.\<close>

definition sixteen_dots :: string where
  "sixteen_dots = ''. . . . . . . . . . . . . . . .''"

definition two_loops_text :: string where
  "two_loops_text = ''One two three four five six seven eight. Nine ten eleven twelve thirteen fourteen fifteen sixteen! Done?''"

subsection \<open>The keyword scorer in the words of the specification\<close>

text \<open>
  The scorer as the specification words it, for comparison with \<open>chunk_score\<close> and
  \<open>keyword_chunks\<close>: 3 for every chunk word that equals a question word, 1 for every
  other chunk word that contains a question word; the chunks with a score above 0
  sorted by descending score, ties in chunk order; the first \<open>top_k\<close> of them.
\<close>

definition spec_chunk_score :: "string list \<Rightarrow> string \<Rightarrow> nat" where
  "spec_chunk_score qwords chunk =
     sum_list (map (\<lambda>chunk_word.
                      if chunk_word \<in> set qwords then 3
                      else if list_ex (\<lambda>w. py_in w chunk_word) qwords then 1
                      else 0)
                 (py_split (py_lower chunk)))"

definition spec_keyword_chunks :: "string list \<Rightarrow> string \<Rightarrow> nat \<Rightarrow> string list" where
  "spec_keyword_chunks cs question top_k =
     map snd (take top_k
       (sort_key (\<lambda>sc. - int (fst sc))
          (filter (\<lambda>sc. 0 < fst sc)
             (map (\<lambda>chunk. (spec_chunk_score (question_words question) chunk, chunk)) cs))))"

definition two_cats_system :: NewsReadingSystem where
  "two_cats_system =
     \<lparr>language = ''english'', sentences = [], current_position = 0,
      chunks = [''a cat'', ''cat cat''],
      model = None, vector_store = None\<rparr>"

section \<open>Properties of the position tracker\<close>

lemma get_next_sentence_sentences [simp]:
  "sentences (snd (get_next_sentence ns)) = sentences ns"
  by (simp add: get_next_sentence_def Let_def)

lemma after_calls_sentences [simp]: "sentences (after_calls k ns) = sentences ns"
  by (induction k arbitrary: ns) simp_all

lemma get_next_sentence_position:
  "current_position (snd (get_next_sentence ns)) =
     (if current_position ns < length (sentences ns) then current_position ns + 1
      else current_position ns)"
  by (simp add: get_next_sentence_def Let_def)

lemma after_calls_position:
  "current_position ns \<le> length (sentences ns) \<Longrightarrow>
   current_position (after_calls k ns) = min (current_position ns + k) (length (sentences ns))"
proof (induction k arbitrary: ns)
  case 0
  then show ?case by simp
next
  case (Suc k)
  let ?ns' = "snd (get_next_sentence ns)"
  have le: "current_position ?ns' \<le> length (sentences ?ns')"
    using Suc.prems by (simp add: get_next_sentence_position)
  show ?case
    using Suc.IH [OF le] Suc.prems by (auto simp: get_next_sentence_position)
qed

text \<open>
  C4. On a freshly loaded document (cursor 0) with \<open>n\<close> sentences, the \<open>i\<close>-th call of
  \<open>get_next_sentence\<close>, \<open>1 \<le> i \<le> n\<close>, returns \<open>(sentences[i-1], i < n)\<close> and moves
  the cursor from \<open>i - 1\<close> to \<open>i\<close>; every later call returns \<open>(None, False)\<close> and leaves
  the cursor at \<open>n\<close>.
\<close>

theorem get_next_sentence_ith_call:
  assumes "current_position ns = 0"
  shows "(1 \<le> i \<and> i \<le> length (sentences ns) \<longrightarrow>
            fst (get_next_sentence (after_calls (i - 1) ns))
              = (Some (sentences ns ! (i - 1)), i < length (sentences ns))
          \<and> current_position (after_calls (i - 1) ns) = i - 1
          \<and> current_position (after_calls i ns) = i)
       \<and> (length (sentences ns) < i \<longrightarrow>
            fst (get_next_sentence (after_calls (i - 1) ns)) = (None, False)
          \<and> current_position (after_calls i ns) = length (sentences ns))"
proof -
  have pos: "\<And>k. current_position (after_calls k ns) = min k (length (sentences ns))"
    using after_calls_position [of ns] assms by simp
  show ?thesis
    by (auto simp: get_next_sentence_def Let_def pos min_def)
qed

theorem get_next_sentence_ith_call_witness:
  "fst (get_next_sentence (after_calls 0 three_sentences))
     = (Some ''A cat sat on the mat quietly.'', True)
   \<and> fst (get_next_sentence (after_calls 1 three_sentences))
     = (Some ''Dogs barked loudly outside the house.'', True)
   \<and> fst (get_next_sentence (after_calls 2 three_sentences))
     = (Some ''The weather was sunny and warm today.'', False)
   \<and> fst (get_next_sentence (after_calls 3 three_sentences)) = (None, False)"
proof -
  have c: "current_position three_sentences = 0"
    by (simp add: three_sentences_def)
  have s: "sentences three_sentences = [''A cat sat on the mat quietly.'',
                   ''Dogs barked loudly outside the house.'',
                   ''The weather was sunny and warm today.'']"
    by (simp add: three_sentences_def)
  show ?thesis
    using get_next_sentence_ith_call [OF c, of 1] get_next_sentence_ith_call [OF c, of 2]
      get_next_sentence_ith_call [OF c, of 3] get_next_sentence_ith_call [OF c, of 4]
    by (simp add: s)
qed

section \<open>Retrieval and the question answerer\<close>

lemma keyword_chunks_nonempty:
  "cs \<noteq> [] \<Longrightarrow> 0 < k \<Longrightarrow> keyword_chunks cs question k \<noteq> []"
  by (auto simp: keyword_chunks_def Let_def)

lemma keyword_chunks_no_match:
  "scored_chunks (question_words question) cs = [] \<Longrightarrow>
   keyword_chunks cs question k = take k cs"
  by (simp add: keyword_chunks_def)

text \<open>
  C6, as the code has it. An error raised by the similarity search never aborts
  \<open>find_relevant_chunks\<close>: the handler returns the first \<open>top_k\<close> chunks in document
  order (none when there are no chunks). The keyword scorer is not run on this path.
\<close>

theorem find_relevant_chunks_store_error:
  assumes "vector_store ns = Some vs" and "vs question top_k = Inl e"
  shows "find_relevant_chunks ns question top_k = take top_k (chunks ns)"
  using assms by (simp add: find_relevant_chunks_def)

theorem find_relevant_chunks_store_error_witness:
  "vector_store failing_store_system
     = Some (\<lambda>question k. Inl (PyException ''embedding backend unavailable''))
   \<and> find_relevant_chunks failing_store_system ''cats'' 1 = [''dogs bark'']"
proof -
  have v: "vector_store failing_store_system
     = Some (\<lambda>question k. Inl (PyException ''embedding backend unavailable''))"
    by (simp add: failing_store_system_def)
  have "find_relevant_chunks failing_store_system ''cats'' 1
          = take 1 (chunks failing_store_system)"
    by (rule find_relevant_chunks_store_error [OF v]) simp
  then show ?thesis using v by (simp add: failing_store_system_def)
qed

text \<open>
  C6 as stated fails: with a raising vector store, chunks \<open>dogs bark\<close> and
  \<open>cats purr\<close>, the question \<open>cats\<close> and \<open>top_k = 1\<close>, the code returns the first
  chunk, while the keyword scorer ranks the second chunk first.
\<close>

theorem store_error_not_lexical_counterexample:
  "find_relevant_chunks failing_store_system ''cats'' 1 = [''dogs bark'']
   \<and> keyword_chunks (chunks failing_store_system) ''cats'' 1 = [''cats purr'']"
proof -
  have "keyword_chunks [''dogs bark'', ''cats purr''] ''cats'' 1 = [''cats purr'']"
    by code_simp
  then show ?thesis
    by (simp add: find_relevant_chunks_def failing_store_system_def)
qed

lemma ask_question_empty_retrieval:
  "model ns = Some generate_content \<Longrightarrow> chunks ns \<noteq> [] \<Longrightarrow>
   find_relevant_chunks ns question 5 = [] \<Longrightarrow>
   ask_question ns question = (no_information_message, [])"
  by (simp add: ask_question_def ask_question_body_def)

lemma ask_question_prompts:
  "model ns = Some generate_content \<Longrightarrow> chunks ns \<noteq> [] \<Longrightarrow>
   find_relevant_chunks ns question 5 = relevant \<Longrightarrow> relevant \<noteq> [] \<Longrightarrow>
   snd (ask_question ns question)
     = [answer_prompt (py_join [CHR 0x0A, CHR 0x0A] relevant) question]"
  by (simp add: ask_question_def ask_question_body_def Let_def split: sum.splits)

text \<open>
  C2, as the code has it. With a generation model and chunks present, \<open>ask_question\<close>
  returns the fixed no-information message without a generation call whenever
  retrieval returns no chunk. Under the keyword fallback retrieval never returns no
  chunk: when no chunk scores above 0 it returns the first five chunks, and the
  generation service is called once, with the prompt built from them.
\<close>

theorem ask_question_no_match:
  assumes "model ns = Some generate_content" and "chunks ns \<noteq> []"
  shows "(find_relevant_chunks ns question 5 = [] \<longrightarrow>
            ask_question ns question = (no_information_message, []))
       \<and> (vector_store ns = None \<longrightarrow> find_relevant_chunks ns question 5 \<noteq> [])
       \<and> (vector_store ns = None \<and> scored_chunks (question_words question) (chunks ns) = [] \<longrightarrow>
            find_relevant_chunks ns question 5 = take 5 (chunks ns)
          \<and> snd (ask_question ns question)
              = [answer_prompt (py_join [CHR 0x0A, CHR 0x0A] (take 5 (chunks ns))) question])"
proof (intro conjI impI)
  assume "find_relevant_chunks ns question 5 = []"
  then show "ask_question ns question = (no_information_message, [])"
    using assms by (rule ask_question_empty_retrieval [rotated 2])
next
  assume "vector_store ns = None"
  then show "find_relevant_chunks ns question 5 \<noteq> []"
    using assms(2) keyword_chunks_nonempty [of "chunks ns" 5 question]
    by (simp add: find_relevant_chunks_def)
next
  assume a: "vector_store ns = None \<and> scored_chunks (question_words question) (chunks ns) = []"
  then show r: "find_relevant_chunks ns question 5 = take 5 (chunks ns)"
    by (simp add: find_relevant_chunks_def keyword_chunks_no_match)
  have "take 5 (chunks ns) \<noteq> []" using assms(2) by simp
  then show "snd (ask_question ns question)
      = [answer_prompt (py_join [CHR 0x0A, CHR 0x0A] (take 5 (chunks ns))) question]"
    using ask_question_prompts [OF assms r] by simp
qed

lemma no_score_dog: "scored_chunks (question_words ''dog'') [''cats purr''] = []"
  by code_simp

theorem ask_question_no_match_witness:
  "ask_question empty_store_system ''dog'' = (no_information_message, [])
   \<and> scored_chunks (question_words ''dog'') (chunks keyword_only_system) = []
   \<and> find_relevant_chunks keyword_only_system ''dog'' 5 = [''cats purr'']
   \<and> snd (ask_question keyword_only_system ''dog'')
       = [answer_prompt (py_join [CHR 0x0A, CHR 0x0A] [''cats purr'']) ''dog'']"
proof -
  have m1: "model empty_store_system = Some (\<lambda>prompt. Inr ''  Cats purr.  '')"
    and c1: "chunks empty_store_system \<noteq> []"
    and f1: "find_relevant_chunks empty_store_system ''dog'' 5 = []"
    by (simp_all add: empty_store_system_def find_relevant_chunks_def)
  have m2: "model keyword_only_system = Some (\<lambda>prompt. Inr ''  Cats purr.  '')"
    and c2: "chunks keyword_only_system \<noteq> []"
    and v2: "vector_store keyword_only_system = None"
    and s2: "scored_chunks (question_words ''dog'') (chunks keyword_only_system) = []"
    by (simp_all add: keyword_only_system_def no_score_dog)
  have t2: "take 5 (chunks keyword_only_system) = [''cats purr'']"
    by (simp add: keyword_only_system_def)
  show ?thesis
    using ask_question_no_match [OF m1 c1, of "''dog''"]
      ask_question_no_match [OF m2 c2, of "''dog''"] f1 v2 s2 t2
    by simp
qed

text \<open>
  C2 as stated fails: without a vector store, with the one chunk \<open>cats purr\<close> and the
  question \<open>dog\<close>, no chunk scores above 0, yet the generation service is called once
  and its (stripped) text is the answer, not the fixed message.
\<close>

theorem no_match_invokes_generation_counterexample:
  "scored_chunks (question_words ''dog'') (chunks keyword_only_system) = []
   \<and> fst (ask_question keyword_only_system ''dog'') = ''Cats purr.''
   \<and> fst (ask_question keyword_only_system ''dog'') \<noteq> no_information_message
   \<and> length (snd (ask_question keyword_only_system ''dog'')) = 1"
proof -
  have s: "scored_chunks (question_words ''dog'') [''cats purr''] = []"
    by code_simp
  have k: "keyword_chunks [''cats purr''] ''dog'' 5 = [''cats purr'']"
    using s by (simp add: keyword_chunks_def)
  have st: "py_strip ''  Cats purr.  '' = ''Cats purr.''"
    by (simp add: py_strip_def is_space_def)
  show ?thesis
    using s k st
    by (simp add: ask_question_def ask_question_body_def keyword_only_system_def
        find_relevant_chunks_def no_information_message_def)
qed

section \<open>Generation failures\<close>

lemma ask_question_raises:
  assumes "model ns = Some generate_content" and "chunks ns \<noteq> []"
    and "find_relevant_chunks ns question 5 \<noteq> []"
    and "generate_content
           (answer_prompt (py_join [CHR 0x0A, CHR 0x0A] (find_relevant_chunks ns question 5))
              question) = Inl e"
  shows "ask_question_body ns question
           = (Inl e, [answer_prompt (py_join [CHR 0x0A, CHR 0x0A]
                        (find_relevant_chunks ns question 5)) question])"
  using assms by (simp add: ask_question_body_def Let_def)

lemma ask_pdf_question_initialized:
  "news_system (g::server) = Some ns \<Longrightarrow>
   ask_pdf_question question g
     = (fst (ask_question ns question),
        g\<lparr>prompts_sent := prompts_sent g @ snd (ask_question ns question)\<rparr>)"
  by (simp add: ask_pdf_question_def split: prod.splits)

lemma handle_user_question_initialized:
  assumes "news_system (g::server) = Some ns" and "py_strip raw \<noteq> []"
  shows "handle_user_question session raw g
     = (g\<lparr>prompts_sent := prompts_sent g @ snd (ask_question ns (py_strip raw)),
           emitted := emitted g @
             [(session, QuestionAnswer (py_strip raw) (fst (ask_question ns (py_strip raw)))),
              (session, AskContinue (if current_language g \<in> set continue_languages
                                     then current_language g else ''english''))],
           speech_cancelled := (if news_anchor g then False else speech_cancelled g)\<rparr>)"
  using assms
  by (simp add: handle_user_question_def Let_def ask_pdf_question_initialized emit_def)

text \<open>
  C5. When the generation call raises, \<open>ask_question\<close> returns the retry-later message
  if the error text contains \<open>429\<close> or, in any letter case, \<open>quota\<close>, and the
  technical-difficulty message otherwise; the exception does not leave the function.
  \<open>handle_user_question\<close> then emits that message as the answer and leaves the pause
  flag, the reading flag (so the lifecycle state: a paused session stays paused), the
  document with its cursor and the narration threads as they were.
\<close>

theorem ask_question_generation_failure:
  assumes "model ns = Some generate_content" and "chunks ns \<noteq> []"
    and "find_relevant_chunks ns question 5 \<noteq> []"
    and "generate_content
           (answer_prompt (py_join [CHR 0x0A, CHR 0x0A] (find_relevant_chunks ns question 5))
              question) = Inl (PyException error_msg)"
  shows "fst (ask_question ns question)
           = (if py_in ''429'' error_msg \<or> py_in ''quota'' (py_lower error_msg)
              then quota_message else technical_message)
       \<and> (\<forall>(g::server) session raw.
             news_system g = Some ns \<and> py_strip raw = question \<and> question \<noteq> [] \<longrightarrow>
               (let g' = handle_user_question session raw g
                in is_paused_for_question g' = is_paused_for_question g
                 \<and> is_reading_news g' = is_reading_news g
                 \<and> lifecycle_of g' = lifecycle_of g
                 \<and> news_system g' = news_system g
                 \<and> threads g' = threads g
                 \<and> emitted g' = emitted g @
                     [(session, QuestionAnswer question
                         (if py_in ''429'' error_msg \<or> py_in ''quota'' (py_lower error_msg)
                          then quota_message else technical_message)),
                      (session, AskContinue (if current_language g \<in> set continue_languages
                                             then current_language g else ''english''))]))"
proof -
  have a: "fst (ask_question ns question)
           = (if py_in ''429'' error_msg \<or> py_in ''quota'' (py_lower error_msg)
              then quota_message else technical_message)"
    using ask_question_raises [OF assms]
    by (simp add: ask_question_def question_error_message_def)
  show ?thesis
  proof (intro conjI allI impI)
    show "fst (ask_question ns question)
           = (if py_in ''429'' error_msg \<or> py_in ''quota'' (py_lower error_msg)
              then quota_message else technical_message)"
      by (rule a)
  next
    fix g :: server and session raw
    assume h: "news_system g = Some ns \<and> py_strip raw = question \<and> question \<noteq> []"
    then have ne: "py_strip raw \<noteq> []" by simp
    show "let g' = handle_user_question session raw g
                in is_paused_for_question g' = is_paused_for_question g
                 \<and> is_reading_news g' = is_reading_news g
                 \<and> lifecycle_of g' = lifecycle_of g
                 \<and> news_system g' = news_system g
                 \<and> threads g' = threads g
                 \<and> emitted g' = emitted g @
                     [(session, QuestionAnswer question
                         (if py_in ''429'' error_msg \<or> py_in ''quota'' (py_lower error_msg)
                          then quota_message else technical_message)),
                      (session, AskContinue (if current_language g \<in> set continue_languages
                                             then current_language g else ''english''))]"
      using h a
      by (simp add: handle_user_question_initialized [OF conjunct1 [OF h] ne] Let_def
          lifecycle_of_def)
  qed
qed

lemma quota_detected: "py_in ''quota'' (py_lower ''Resource exhausted: Quota exceeded'')"
  by code_simp

lemma cats_found: "keyword_chunks [''cats purr''] ''cats'' 5 = [''cats purr'']"
  by code_simp

theorem ask_question_generation_failure_witness:
  "fst (ask_question quota_system ''cats'') = quota_message
   \<and> lifecycle_of paused_quota_server = PausedForQuestion
   \<and> lifecycle_of (handle_user_question ''s1'' '' cats '' paused_quota_server) = PausedForQuestion
   \<and> emitted (handle_user_question ''s1'' '' cats '' paused_quota_server)
       = [(''s1'', QuestionAnswer ''cats'' quota_message), (''s1'', AskContinue ''english'')]"
proof -
  let ?gen = "\<lambda>prompt::string. (Inl (PyException ''Resource exhausted: Quota exceeded'')
                                   :: py_exception + string)"
  have m: "model quota_system = Some ?gen"
    and c: "chunks quota_system \<noteq> []"
    and f: "find_relevant_chunks quota_system ''cats'' 5 \<noteq> []"
    by (simp_all add: quota_system_def find_relevant_chunks_def cats_found)
  have r: "?gen (answer_prompt (py_join [CHR 0x0A, CHR 0x0A]
                   (find_relevant_chunks quota_system ''cats'' 5)) ''cats'')
             = Inl (PyException ''Resource exhausted: Quota exceeded'')"
    by simp
  have s: "py_strip '' cats '' = ''cats''"
    by (simp add: py_strip_def is_space_def)
  have n: "news_system paused_quota_server = Some quota_system"
    and l: "lifecycle_of paused_quota_server = PausedForQuestion"
    and e: "emitted paused_quota_server = []"
    and cl: "current_language paused_quota_server = ''english''"
    by (simp_all add: paused_quota_server_def fresh_server_def lifecycle_of_def)
  note t = ask_question_generation_failure [OF m c f r]
  from t have t1: "fst (ask_question quota_system ''cats'') = quota_message"
    using quota_detected by simp
  from t have t2: "let g' = handle_user_question ''s1'' '' cats '' paused_quota_server
                in is_paused_for_question g' = is_paused_for_question paused_quota_server
                 \<and> is_reading_news g' = is_reading_news paused_quota_server
                 \<and> lifecycle_of g' = lifecycle_of paused_quota_server
                 \<and> news_system g' = news_system paused_quota_server
                 \<and> threads g' = threads paused_quota_server
                 \<and> emitted g' = emitted paused_quota_server @
                     [(''s1'', QuestionAnswer ''cats''
                         (if py_in ''429'' ''Resource exhausted: Quota exceeded''
                           \<or> py_in ''quota'' (py_lower ''Resource exhausted: Quota exceeded'')
                          then quota_message else technical_message)),
                      (''s1'', AskContinue (if current_language paused_quota_server \<in> set continue_languages
                                             then current_language paused_quota_server else ''english''))]"
    using n s by blast
  show ?thesis
    using t1 t2 l e cl quota_detected by (simp add: Let_def continue_languages_def)
qed

section \<open>The module-level interface and the sessions\<close>

text \<open>
  C10. With the global \<open>news_system\<close> unset, the module-level functions return their
  defaults and leave the state alone: \<open>get_next_sentence\<close> gives \<open>(None, False)\<close>,
  \<open>get_remaining_text\<close> the empty string, \<open>get_progress\<close> 0. \<open>ask_pdf_question\<close>
  calls \<open>initialize_rag\<close> once, for English: when that fails it returns the fixed
  apology and calls no generation service; when it succeeds it installs the loaded
  system and asks it the question.
\<close>

theorem uninitialized_module_api:
  assumes "news_system (g::server) = None"
  shows "module_get_next_sentence g = ((None, False), g)
       \<and> module_get_remaining_text g = []
       \<and> module_get_progress g = 0
       \<and> (loader g ''english'' = None \<longrightarrow>
            ask_pdf_question question g
              = (unavailable_message, g\<lparr>load_attempts := load_attempts g @ [''english'']\<rparr>))
       \<and> (\<forall>ns. loader g ''english'' = Some ns \<longrightarrow>
            ask_pdf_question question g
              = (fst (ask_question ns question),
                 g\<lparr>load_attempts := load_attempts g @ [''english''],
                   news_system := Some ns,
                   prompts_sent := prompts_sent g @ snd (ask_question ns question)\<rparr>))"
  using assms
  by (auto simp: module_get_next_sentence_def module_get_remaining_text_def
      module_get_progress_def ask_pdf_question_def initialize_rag_def Let_def
      split: prod.splits)

theorem uninitialized_module_api_witness:
  "news_system (fresh_server None) = None
   \<and> module_get_next_sentence (fresh_server None) = ((None, False), fresh_server None)
   \<and> module_get_remaining_text (fresh_server None) = []
   \<and> module_get_progress (fresh_server None) = 0
   \<and> fst (ask_pdf_question ''what?'' (fresh_server None)) = unavailable_message
   \<and> load_attempts (snd (ask_pdf_question ''what?'' (fresh_server None))) = [''english'']
   \<and> prompts_sent (snd (ask_pdf_question ''what?'' (fresh_server None))) = []"
proof -
  have n: "news_system (fresh_server None) = None"
    and l: "loader (fresh_server None) ''english'' = None"
    and a: "load_attempts (fresh_server None) = []"
    and p: "prompts_sent (fresh_server None) = []"
    by (simp_all add: fresh_server_def)
  show ?thesis
    using uninitialized_module_api [OF n, of "''what?''"] n l a p by simp
qed

text \<open>
  C9, as the code has it. The read cursor, the document, the language, the pause and
  cancel flags and with them the lifecycle state are one set of module globals: every
  session works with the same values, and what a command does to them does not depend
  on the session that sent it. Per session are only the room of the events that a
  handler emits and the room of the narration thread that \<open>start_reading\<close> spawns.
\<close>

theorem sessions_share_state:
  "session_state b (handle a c g) = session_state a (handle a c g)
   \<and> session_state b (handle a c g) = session_state b (handle b c g)
   \<and> (\<exists>evs. emitted (handle a c g) = emitted g @ map (Pair a) evs)
   \<and> (\<exists>ts. threads (handle a c g) = threads g @ map (Pair a) ts)"
proof (intro conjI)
  show "session_state b (handle a c g) = session_state a (handle a c g)"
    by (simp add: session_state_def)
  show "session_state b (handle a c g) = session_state b (handle b c g)"
    by (cases c)
      (auto simp: session_state_def lifecycle_of_def handle_set_language_def
        handle_start_reading_def handle_ask_question_def handle_user_question_def
        handle_continue_reading_def handle_stop_reading_def handle_cancel_session_def
        emit_def initialize_rag_def ask_pdf_question_def reset_reading_def Let_def
        split: prod.splits option.splits)
  show "\<exists>evs. emitted (handle a c g) = emitted g @ map (Pair a) evs"
  proof (cases c)
    case (SetLanguage l)
    then show ?thesis
      by (auto simp: handle_set_language_def emit_def initialize_rag_def Let_def
          split: prod.splits option.splits intro: exI [of _ "[e]" for e])
  next
    case StartReading
    then show ?thesis
      by (auto simp: handle_start_reading_def emit_def reset_reading_def Let_def
          split: option.splits intro: exI [of _ "[e]" for e])
  next
    case AskQuestion
    then show ?thesis
      by (auto simp: handle_ask_question_def emit_def intro: exI [of _ "[e]" for e])
  next
    case (UserQuestion q)
    then show ?thesis
      by (auto simp: handle_user_question_def emit_def ask_pdf_question_def
          initialize_rag_def Let_def
          split: prod.splits option.splits if_splits
          intro: exI [of _ "[]"] exI [of _ "[e1, e2]" for e1 e2])
  next
    case (ContinueReading r)
    then show ?thesis
      by (auto simp: handle_continue_reading_def emit_def
          intro: exI [of _ "[e1, e2]" for e1 e2])
  next
    case StopReading
    then show ?thesis
      by (auto simp: handle_stop_reading_def emit_def intro: exI [of _ "[e]" for e])
  next
    case CancelSession
    then show ?thesis
      by (auto simp: handle_cancel_session_def intro: exI [of _ "[]"])
  qed
  show "\<exists>ts. threads (handle a c g) = threads g @ map (Pair a) ts"
  proof (cases c)
    case StartReading
    then show ?thesis
      by (auto simp: handle_start_reading_def emit_def reset_reading_def Let_def
          split: option.splits intro: exI [of _ "[p]" for p])
  qed (auto simp: handle_set_language_def handle_ask_question_def handle_user_question_def
        handle_continue_reading_def handle_stop_reading_def handle_cancel_session_def
        emit_def initialize_rag_def ask_pdf_question_def Let_def
        split: prod.splits option.splits intro: exI [of _ "[]"])
qed

text \<open>
  C9 as stated fails: while session \<open>B\<close> is reading, the \<open>ask_question\<close> command of
  session \<open>A\<close> sets the pause and cancel flags that \<open>B\<close> works with and moves \<open>B\<close>
  from Reading to PausedForQuestion.
\<close>

theorem ask_question_pauses_other_session_counterexample:
  "view_lifecycle (session_state ''B'' b_reading_server) = Reading
   \<and> view_paused (session_state ''B'' b_reading_server) = False
   \<and> view_cancelled (session_state ''B'' b_reading_server) = False
   \<and> view_lifecycle (session_state ''B'' (handle ''A'' AskQuestion b_reading_server))
       = PausedForQuestion
   \<and> view_paused (session_state ''B'' (handle ''A'' AskQuestion b_reading_server)) = True
   \<and> view_cancelled (session_state ''B'' (handle ''A'' AskQuestion b_reading_server)) = True"
  by (simp add: session_state_def b_reading_server_def handle_start_reading_def
      handle_ask_question_def fresh_server_def emit_def reset_reading_def lifecycle_of_def
      Let_def)

section \<open>Question interruptions\<close>

lemma dispatched_of_append:
  "dispatched_of (es @ fs) = dispatched_of es @ dispatched_of fs"
  by (induction es rule: dispatched_of.induct) simp_all

lemma dispatched_emit:
  "dispatched (emit room ev g) = dispatched g @ dispatched_of [(room, ev)]"
  by (simp add: dispatched_def emit_def dispatched_of_append)

lemma dispatched_threads [simp]: "dispatched (g\<lparr>threads := ts\<rparr>) = dispatched g"
  by (simp add: dispatched_def)









































section \<open>The pacing calculator\<close>

lemma py_int_clamped:
  "110 \<le> py_int (max (of_int min_wpm) (min (of_int max_wpm) x))
   \<and> py_int (max (of_int min_wpm) (min (of_int max_wpm) x)) \<le> 170"
proof -
  let ?y = "max (of_int min_wpm) (min (of_int max_wpm) x) :: real"
  have lo: "110 \<le> ?y" and hi: "?y \<le> 170"
    by (simp_all add: min_wpm_def max_wpm_def)
  then have "0 \<le> ?y" by linarith
  then have "py_int ?y = \<lfloor>?y\<rfloor>" by (simp add: py_int_def)
  moreover have "110 \<le> \<lfloor>?y\<rfloor>" using lo by (simp add: le_floor_iff)
  moreover have "\<lfloor>?y\<rfloor> \<le> 170" using hi by (simp add: floor_le_iff)
  ultimately show ?thesis by simp
qed

lemma target_duration_positive:
  assumes "float_rounding fl" and "1 \<le> (n::int)"
  shows "5 \<le> fl (of_int n * talk_video_duration)"
proof -
  have mono: "\<And>x y. x \<le> y \<Longrightarrow> fl x \<le> fl y" and five: "fl 5 = 5"
    using assms(1) by (simp_all add: float_rounding_def)
  have le: "(5::real) \<le> of_int n * talk_video_duration"
    using assms(2) by (simp add: talk_video_duration_def)
  have "fl 5 \<le> fl (of_int n * talk_video_duration)"
    using le by (rule mono)
  then show ?thesis using five by simp
qed

text \<open>
  C8. For every rounding of the float operations that is monotone and exact at 5,
  and every text, \<open>calculate_optimal_rate\<close> returns (it does not raise) a rate within
  110 and 170; the rate is 140 when the text has at most 5 words, and otherwise the
  truncation to an integer of the clamp to 110 .. 170 of \<open>words / (loops * 5.0) * 60\<close>,
  where \<open>loops = max(1, round(words / 140 * 60 / 5.0))\<close>.
\<close>

theorem calculate_optimal_rate_range:
  assumes "float_rounding fl"
  shows "\<exists>rate. calculate_optimal_rate fl text = Inr rate
           \<and> 110 \<le> rate \<and> rate \<le> 170
           \<and> (length (py_split text) \<le> 5 \<longrightarrow> rate = 140)
           \<and> (5 < length (py_split text) \<longrightarrow>
                (let words = real (length (py_split text));
                     loops = max 1 (py_round (fl (fl (fl (words / 140) * 60) / 5)));
                     required = fl (fl (words / fl (of_int loops * 5)) * 60)
                 in rate = py_int (max 110 (min 170 required))))"
proof (cases "length (py_split text) \<le> 5")
  case True
  then show ?thesis
    by (simp add: calculate_optimal_rate_def base_wpm_def)
next
  case False
  let ?words = "real (length (py_split text))"
  let ?loops = "max 1 (py_round (fl (fl (fl (?words / 140) * 60) / 5)))"
  let ?target = "fl (of_int ?loops * talk_video_duration)"
  let ?required = "fl (fl (?words / ?target) * 60)"
  have "5 \<le> ?target"
    by (rule target_duration_positive [OF assms]) simp
  then have nz: "?target \<noteq> 0" by linarith
  have eq: "calculate_optimal_rate fl text
              = Inr (py_int (max (of_int min_wpm) (min (of_int max_wpm) ?required)))"
    using False nz
    by (simp add: calculate_optimal_rate_def estimate_speech_duration_def Let_def
        base_wpm_def talk_video_duration_def)
  show ?thesis
    using eq False py_int_clamped [of ?required]
    by (simp add: Let_def min_wpm_def max_wpm_def talk_video_duration_def)
qed

theorem calculate_optimal_rate_range_witness:
  "float_rounding (\<lambda>x. x)
   \<and> calculate_optimal_rate (\<lambda>x. x) ''a b c d e f g h i j k'' = Inr 132
   \<and> calculate_optimal_rate (\<lambda>x. x) ''good evening'' = Inr 140
   \<and> calculate_optimal_rate (\<lambda>x. x) ''a b c d e f g'' = Inr 110"
proof -
  have f: "float_rounding (\<lambda>x. x)" by (simp add: float_rounding_def)
  have w1: "length (py_split ''a b c d e f g h i j k'') = 11"
    and w2: "length (py_split ''good evening'') = 2"
    and w3: "length (py_split ''a b c d e f g'') = 7"
    by (simp_all add: py_split_def is_space_def)
  have r1: "py_round (11 / 140 * 60 / 5) = 1" and r3: "py_round (7 / 140 * 60 / 5) = 1"
    by (simp_all add: py_round_def)
  have i1: "py_int (max 110 (min 170 (11 / 5 * 60))) = 132"
    and i3: "py_int (max 110 (min 170 (7 / 5 * 60))) = 110"
    by (simp_all add: py_int_def)
  from calculate_optimal_rate_range [OF f, of "''a b c d e f g h i j k''"]
  have a: "calculate_optimal_rate (\<lambda>x. x) ''a b c d e f g h i j k'' = Inr 132"
    using w1 r1 i1 by (auto simp: Let_def)
  from calculate_optimal_rate_range [OF f, of "''good evening''"]
  have b: "calculate_optimal_rate (\<lambda>x. x) ''good evening'' = Inr 140"
    using w2 by (auto simp: Let_def)
  from calculate_optimal_rate_range [OF f, of "''a b c d e f g''"]
  have c: "calculate_optimal_rate (\<lambda>x. x) ''a b c d e f g'' = Inr 110"
    using w3 r3 i3 by (auto simp: Let_def)
  show ?thesis using f a b c by simp
qed

section \<open>Splitting a text for natural pauses\<close>

lemma squeeze_append [simp]: "squeeze (a @ b) = squeeze a @ squeeze b"
  by (simp add: squeeze_def)

lemma squeeze_space [simp]: "squeeze '' '' = []"
  by (simp add: squeeze_def is_space_def)

lemma squeeze_dropWhile: "squeeze (dropWhile is_space s) = squeeze s"
  by (induction s) (simp_all add: squeeze_def)

lemma squeeze_rev: "squeeze (rev s) = rev (squeeze s)"
  by (simp add: squeeze_def rev_filter)

lemma squeeze_strip [simp]: "squeeze (py_strip s) = squeeze s"
  by (simp add: py_strip_def squeeze_rev squeeze_dropWhile)

lemma split_acc_spaces:
  "\<forall>c \<in> set ys. is_space c \<Longrightarrow> split_acc w ys = (if w = [] then [] else [w])"
  by (induction ys arbitrary: w) auto

lemma split_acc_trailing:
  "\<forall>c \<in> set ys. is_space c \<Longrightarrow> split_acc w (xs @ ys) = split_acc w xs"
  by (induction xs arbitrary: w) (simp_all add: split_acc_spaces)

lemma split_acc_leading: "split_acc [] (dropWhile is_space s) = split_acc [] s"
  by (induction s) simp_all

lemma py_split_strip [simp]: "py_split (py_strip s) = py_split s"
proof -
  let ?d = "dropWhile is_space s"
  have "?d = rev (dropWhile is_space (rev ?d)) @ rev (takeWhile is_space (rev ?d))"
    by (metis rev_append rev_rev_ident takeWhile_dropWhile_id)
  moreover have "\<forall>c \<in> set (rev (takeWhile is_space (rev ?d))). is_space c"
    by (auto dest: set_takeWhileD)
  ultimately have "split_acc [] ?d = split_acc [] (rev (dropWhile is_space (rev ?d)))"
    using split_acc_trailing by metis
  then show ?thesis
    by (simp add: py_split_def py_strip_def split_acc_leading)
qed

lemma py_strip_fixed:
  assumes "s \<noteq> []" and "\<not> is_space (hd s)" and "\<not> is_space (last s)"
  shows "py_strip s = s"
proof -
  have "dropWhile is_space s = s"
    using assms(2) by (simp add: dropWhile_eq_self_iff)
  moreover have "dropWhile is_space (rev s) = rev s"
    using assms(1,3) by (simp add: dropWhile_eq_self_iff hd_rev)
  ultimately show ?thesis by (simp add: py_strip_def)
qed

lemma py_strip_hd_last:
  assumes "py_strip s \<noteq> []"
  shows "\<not> is_space (hd (py_strip s)) \<and> \<not> is_space (last (py_strip s))"
proof -
  let ?d = "dropWhile is_space s"
  let ?e = "dropWhile is_space (rev ?d)"
  have t: "py_strip s = rev ?e" by (simp add: py_strip_def)
  with assms have e: "?e \<noteq> []" by simp
  then have "\<not> is_space (hd ?e)" by (rule hd_dropWhile)
  then have l: "\<not> is_space (last (py_strip s))"
    using e t by (simp add: last_rev)
  have d: "?d = rev ?e @ rev (takeWhile is_space (rev ?d))"
    by (metis rev_append rev_rev_ident takeWhile_dropWhile_id)
  from e have "rev ?e \<noteq> []" by simp
  then have "hd ?d = hd (rev ?e)" using d by (metis hd_append2)
  moreover have "?d \<noteq> []"
  proof
    assume a: "?d = []"
    have "dropWhile is_space (rev ([]::string)) = []" by simp
    with e show False unfolding a by simp
  qed
  then have "\<not> is_space (hd ?d)" by (rule hd_dropWhile)
  ultimately have "\<not> is_space (hd (py_strip s))" using t by simp
  with l show ?thesis by simp
qed

lemma py_strip_idem [simp]: "py_strip (py_strip s) = py_strip s"
proof (cases "py_strip s = []")
  case True
  have "py_strip [] = []" by (simp add: py_strip_def)
  with True show ?thesis by simp
next
  case False
  then show ?thesis using py_strip_hd_last [OF False] by (simp add: py_strip_fixed)
qed

lemma squeeze_Nil [simp]: "squeeze [] = []"
  by (simp add: squeeze_def)

lemma squeeze_space_Cons [simp]: "squeeze (CHR '' '' # s) = squeeze s"
  by (simp add: squeeze_def is_space_def)

lemma pause_loop_squeeze:
  "concat (map squeeze (close_chunk (pause_loop ss cl cur)))
     = concat (map squeeze cl) @ squeeze cur @ concat (map squeeze ss)"
proof (induction ss arbitrary: cl cur)
  case Nil
  then show ?case by (simp add: close_chunk_def)
next
  case (Cons s ss)
  show ?case by (simp add: Let_def Cons.IH)
qed

lemma pause_loop_chunks:
  assumes "\<forall>c \<in> set cl. length (py_split c) \<le> 15 \<or> c \<in> py_strip ` A"
    and "cur = [] \<or> length (py_split cur) \<le> 15 \<or> cur \<in> A"
    and "set ss \<subseteq> A"
  shows "\<forall>c \<in> set (close_chunk (pause_loop ss cl cur)).
           length (py_split c) \<le> 15 \<or> c \<in> py_strip ` A"
  using assms
proof (induction ss arbitrary: cl cur)
  case Nil
  then show ?case by (auto simp: close_chunk_def)
next
  case (Cons s ss)
  let ?test = "if cur \<noteq> [] then cur @ '' '' @ s else s"
  show ?case
  proof (cases "15 < length (py_split ?test)")
    case True
    let ?cl = "if cur \<noteq> [] then cl @ [py_strip cur] else cl"
    have 1: "\<forall>c \<in> set ?cl. length (py_split c) \<le> 15 \<or> c \<in> py_strip ` A"
      using Cons.prems(1,2) by auto
    have 2: "s = [] \<or> length (py_split s) \<le> 15 \<or> s \<in> A"
      using Cons.prems(3) by simp
    have 3: "set ss \<subseteq> A" using Cons.prems(3) by simp
    have "pause_loop (s # ss) cl cur = pause_loop ss ?cl s"
      using True by (simp add: Let_def)
    then show ?thesis using Cons.IH [OF 1 2 3] by simp
  next
    case False
    have 2: "?test = [] \<or> length (py_split ?test) \<le> 15 \<or> ?test \<in> A"
      using False by simp
    have 3: "set ss \<subseteq> A" using Cons.prems(3) by simp
    have "pause_loop (s # ss) cl cur = pause_loop ss cl ?test"
      using False by (simp add: Let_def)
    then show ?thesis using Cons.IH [OF Cons.prems(1) 2 3] by simp
  qed
qed

lemma pause_loop_nonempty:
  assumes "[] \<notin> set ss" and "cur \<noteq> [] \<or> ss \<noteq> []"
  shows "close_chunk (pause_loop ss cl cur) \<noteq> []"
  using assms
proof (induction ss arbitrary: cl cur)
  case Nil
  then show ?case by (simp add: close_chunk_def)
next
  case (Cons s ss)
  then have s: "s \<noteq> []" and ss: "[] \<notin> set ss" by auto
  show ?case
    using Cons.IH [OF ss] s by (simp add: Let_def)
qed

lemma split_acc_nonempty: "w \<noteq> [] \<Longrightarrow> split_acc w b \<noteq> []"
  by (induction b arbitrary: w) auto

lemma split_acc_prefix: "length (split_acc w a) \<le> length (split_acc w (a @ b))"
proof (induction a arbitrary: w)
  case Nil
  show ?case using split_acc_nonempty [of w b] by (cases "split_acc w b") auto
next
  case (Cons c a)
  then show ?case by simp
qed

lemma words_prefix: "length (py_split a) \<le> length (py_split (a @ b))"
  by (simp add: py_split_def split_acc_prefix)

lemma py_join_append:
  "py_join sep (xs @ ys) =
     (if xs = [] then py_join sep ys else if ys = [] then py_join sep xs
      else py_join sep xs @ sep @ py_join sep ys)"
proof (induction sep xs rule: py_join.induct)
  case (1 sep)
  then show ?case by simp
next
  case (2 sep x)
  then show ?case by (cases ys) simp_all
next
  case (3 sep x y ys')
  then show ?case by simp
qed

lemma py_join_empty_iff: "[] \<notin> set xs \<Longrightarrow> (py_join sep xs = []) = (xs = [])"
  by (induction sep xs rule: py_join.induct) auto

lemma pause_loop_short:
  assumes "[] \<notin> set (pre @ ss)"
    and "length (py_split (py_join '' '' (pre @ ss))) \<le> 15"
  shows "pause_loop ss cl (py_join '' '' pre) = (cl, py_join '' '' (pre @ ss))"
  using assms
proof (induction ss arbitrary: pre)
  case Nil
  then show ?case by simp
next
  case (Cons s ss)
  let ?cur = "py_join '' '' pre"
  let ?test = "if ?cur \<noteq> [] then ?cur @ '' '' @ s else s"
  have pre: "[] \<notin> set pre" using Cons.prems(1) by simp
  have test: "?test = py_join '' '' (pre @ [s])"
    using py_join_empty_iff [OF pre, of "'' ''"] by (simp add: py_join_append)
  have "py_join '' '' (pre @ s # ss) = py_join '' '' ((pre @ [s]) @ ss)" by simp
  also have "\<dots> = py_join '' '' (pre @ [s]) @ (if ss = [] then [] else '' '' @ py_join '' '' ss)"
    by (simp only: py_join_append [of _ "pre @ [s]" ss]) simp
  finally have "length (py_split (py_join '' '' (pre @ [s])))
                  \<le> length (py_split (py_join '' '' (pre @ s # ss)))"
    by (simp only: words_prefix)
  then have short: "\<not> 15 < length (py_split ?test)"
    using Cons.prems(2) test by simp
  have 1: "[] \<notin> set ((pre @ [s]) @ ss)" using Cons.prems(1) by simp
  have 2: "length (py_split (py_join '' '' ((pre @ [s]) @ ss))) \<le> 15"
    using Cons.prems(2) by simp
  have "pause_loop (s # ss) cl ?cur = pause_loop ss cl ?test"
    using short by (simp add: Let_def)
  then show ?case using Cons.IH [OF 1 2] test by simp
qed

lemma pause_sentences_fixed:
  assumes "s \<in> set (pause_sentences text)"
  shows "s \<noteq> [] \<and> py_strip s = s"
  using assms by (auto simp: pause_sentences_def)

lemma py_join_hd: "xs \<noteq> [] \<Longrightarrow> hd xs \<noteq> [] \<Longrightarrow> hd (py_join sep xs) = hd (hd xs)"
  by (induction sep xs rule: py_join.induct) simp_all

lemma py_join_last_nonempty:
  "xs \<noteq> [] \<Longrightarrow> last xs \<noteq> [] \<Longrightarrow> py_join sep xs \<noteq> []"
  by (induction sep xs rule: py_join.induct) simp_all

lemma py_join_last:
  "xs \<noteq> [] \<Longrightarrow> last xs \<noteq> [] \<Longrightarrow> last (py_join sep xs) = last (last xs)"
proof (induction sep xs rule: py_join.induct)
  case (3 sep x y ys)
  then have "py_join sep (y # ys) \<noteq> []"
    using py_join_last_nonempty [of "y # ys" sep] by simp
  with 3 show ?case by simp
qed simp_all

lemma py_strip_join:
  assumes "xs \<noteq> []" and "\<forall>s \<in> set xs. s \<noteq> [] \<and> py_strip s = s"
  shows "py_strip (py_join '' '' xs) = py_join '' '' xs"
proof (rule py_strip_fixed)
  have h: "hd xs \<in> set xs" and l: "last xs \<in> set xs" using assms(1) by simp_all
  have "[] \<notin> set xs" using assms(2) by auto
  then show "py_join '' '' xs \<noteq> []"
    using assms(1) by (simp add: py_join_empty_iff)
  have "\<not> is_space (hd (hd xs))"
    using py_strip_hd_last [of "hd xs"] assms(2) h by auto
  then show "\<not> is_space (hd (py_join '' '' xs))"
    using py_join_hd [OF assms(1)] assms(2) h by auto
  have "\<not> is_space (last (last xs))"
    using py_strip_hd_last [of "last xs"] assms(2) l by auto
  then show "\<not> is_space (last (py_join '' '' xs))"
    using py_join_last [OF assms(1)] assms(2) l by auto
qed

lemma re_split_acc_concat:
  "(b \<longrightarrow> w = []) \<Longrightarrow>
   concat (re_split_acc w b s) = w @ filter (\<lambda>c. \<not> is_terminator c) s"
  by (induction s arbitrary: w b) simp_all

lemma concat_squeeze: "concat (map squeeze ps) = squeeze (concat ps)"
  by (induction ps) simp_all

lemma squeeze_blank: "py_strip x = [] \<Longrightarrow> squeeze x = []"
  using squeeze_strip [of x] by simp

lemma concat_squeeze_stripped:
  "concat (map squeeze (map py_strip (filter (\<lambda>s. py_strip s \<noteq> []) ps)))
     = concat (map squeeze ps)"
  by (induction ps) (simp_all add: squeeze_blank)

lemma pause_sentences_squeeze:
  "concat (map squeeze (pause_sentences text))
     = squeeze (filter (\<lambda>c. \<not> is_terminator c) text)"
proof -
  have "concat (map squeeze (pause_sentences text))
          = concat (map squeeze (re_split_terminators text))"
    unfolding pause_sentences_def by (rule concat_squeeze_stripped)
  also have "\<dots> = squeeze (concat (re_split_terminators text))"
    by (rule concat_squeeze)
  also have "concat (re_split_terminators text) = filter (\<lambda>c. \<not> is_terminator c) text"
    by (simp add: re_split_terminators_def re_split_acc_concat)
  finally show ?thesis .
qed

text \<open>
  C7, as the code has it. The sentences of a text are the stripped, non-blank pieces
  between its runs of terminators (\<open>.\<close>, \<open>!\<close>, \<open>?\<close>). The result is never empty. A text
  without a sentence is returned whole, as the one chunk. Otherwise the chunks,
  concatenated in order and without their whitespace, are the sentences concatenated
  in order without theirs, which is the text without whitespace and terminators;
  every chunk has at most 15 words or is one of the sentences; and when the sentences
  joined by single spaces have at most 15 words, that joined text is the one chunk
  returned.
\<close>

theorem split_text_for_natural_pauses_chunks:
  "split_text_for_natural_pauses text \<noteq> []
   \<and> (pause_sentences text = [] \<longrightarrow> split_text_for_natural_pauses text = [text])
   \<and> (pause_sentences text \<noteq> [] \<longrightarrow>
        concat (map squeeze (split_text_for_natural_pauses text))
          = concat (map squeeze (pause_sentences text))
      \<and> concat (map squeeze (split_text_for_natural_pauses text))
          = squeeze (filter (\<lambda>c. \<not> is_terminator c) text)
      \<and> (\<forall>c \<in> set (split_text_for_natural_pauses text).
            length (py_split c) \<le> 15 \<or> c \<in> set (pause_sentences text))
      \<and> (length (py_split (py_join '' '' (pause_sentences text))) \<le> 15 \<longrightarrow>
            split_text_for_natural_pauses text = [py_join '' '' (pause_sentences text)]))"
proof -
  let ?S = "pause_sentences text"
  let ?R = "close_chunk (pause_loop ?S [] [])"
  have fixed: "\<forall>s \<in> set ?S. s \<noteq> [] \<and> py_strip s = s"
    using pause_sentences_fixed by blast
  then have ne: "[] \<notin> set ?S" by auto
  have res: "split_text_for_natural_pauses text = (if ?R \<noteq> [] then ?R else [text])"
    by (simp add: split_text_for_natural_pauses_def Let_def)
  have r1: "split_text_for_natural_pauses text \<noteq> []"
    using res by simp
  have r2: "?S = [] \<longrightarrow> split_text_for_natural_pauses text = [text]"
    using res by (simp add: close_chunk_def)
  have r3: "split_text_for_natural_pauses text = ?R" if "?S \<noteq> []"
    using res pause_loop_nonempty [OF ne, of "[]" "[]"] that by simp
  have r4: "concat (map squeeze ?R) = concat (map squeeze ?S)"
    by (simp add: pause_loop_squeeze)
  have img: "py_strip ` set ?S = set ?S"
    using fixed by (auto simp: image_iff)
  have r5: "\<forall>c \<in> set ?R. length (py_split c) \<le> 15 \<or> c \<in> set ?S"
    using pause_loop_chunks [of "[]" "set ?S" "[]" ?S] img by simp
  have r6: "?R = [py_join '' '' ?S]"
    if "?S \<noteq> []" and "length (py_split (py_join '' '' ?S)) \<le> 15"
  proof -
    have "pause_loop ?S [] (py_join '' '' []) = ([], py_join '' '' ([] @ ?S))"
      by (rule pause_loop_short) (use ne that in simp_all)
    then have "pause_loop ?S [] [] = ([], py_join '' '' ?S)" by simp
    moreover have "py_join '' '' ?S \<noteq> []"
      using ne that(1) by (simp add: py_join_empty_iff)
    moreover have "py_strip (py_join '' '' ?S) = py_join '' '' ?S"
      using py_strip_join [OF that(1) fixed] .
    ultimately show ?thesis by (simp add: close_chunk_def)
  qed
  show ?thesis
    using r1 r2 r3 r4 r5 r6 pause_sentences_squeeze [of "text"] by auto
qed

text \<open>
  C7 as stated fails. The one-word text \<open>Hi.\<close> yields the chunk \<open>Hi\<close>, not the whole
  text: the terminators are dropped. A text of sixteen dots separated by spaces has no
  sentence, so it is returned whole: a chunk of sixteen words that is not a sentence.
\<close>

theorem short_input_not_whole_text_counterexample:
  "length (py_split ''Hi.'') = 1
   \<and> split_text_for_natural_pauses ''Hi.'' = [''Hi'']
   \<and> split_text_for_natural_pauses ''Hi.'' \<noteq> [''Hi.'']
   \<and> pause_sentences sixteen_dots = []
   \<and> split_text_for_natural_pauses sixteen_dots = [sixteen_dots]
   \<and> length (py_split sixteen_dots) = 16"
proof -
  have 1: "length (py_split ''Hi.'') = 1" by code_simp
  have 2: "split_text_for_natural_pauses ''Hi.'' = [''Hi'']" by code_simp
  have 3: "pause_sentences sixteen_dots = []" by code_simp
  have 4: "split_text_for_natural_pauses sixteen_dots = [sixteen_dots]" by code_simp
  have 5: "length (py_split sixteen_dots) = 16" by code_simp
  show ?thesis using 1 2 3 4 5 by simp
qed

theorem split_text_for_natural_pauses_chunks_witness:
  "pause_sentences ''Hello world. Bye now!  ok'' = [''Hello world'', ''Bye now'', ''ok'']
   \<and> split_text_for_natural_pauses ''Hello world. Bye now!  ok'' = [''Hello world Bye now ok'']
   \<and> split_text_for_natural_pauses two_loops_text
       = [''One two three four five six seven eight'',
          ''Nine ten eleven twelve thirteen fourteen fifteen sixteen Done'']
   \<and> concat (map squeeze (split_text_for_natural_pauses two_loops_text))
       = ''OnetwothreefourfivesixseveneightNineteneleventwelvethirteenfourteenfifteensixteenDone''
   \<and> split_text_for_natural_pauses sixteen_dots = [sixteen_dots]"
proof -
  have s: "pause_sentences ''Hello world. Bye now!  ok'' = [''Hello world'', ''Bye now'', ''ok'']"
    by code_simp
  have w: "length (py_split (py_join '' '' [''Hello world'', ''Bye now'', ''ok''])) \<le> 15"
    by code_simp
  have j: "py_join '' '' [''Hello world'', ''Bye now'', ''ok''] = ''Hello world Bye now ok''"
    by simp
  have a: "split_text_for_natural_pauses ''Hello world. Bye now!  ok'' = [''Hello world Bye now ok'']"
    using split_text_for_natural_pauses_chunks [of "''Hello world. Bye now!  ok''"] s w j
    by simp
  have t: "split_text_for_natural_pauses two_loops_text
       = [''One two three four five six seven eight'',
          ''Nine ten eleven twelve thirteen fourteen fifteen sixteen Done'']"
    by code_simp
  have s2: "pause_sentences two_loops_text \<noteq> []" by code_simp
  have q: "squeeze (filter (\<lambda>c. \<not> is_terminator c) two_loops_text)
       = ''OnetwothreefourfivesixseveneightNineteneleventwelvethirteenfourteenfifteensixteenDone''"
    by code_simp
  have b: "concat (map squeeze (split_text_for_natural_pauses two_loops_text))
       = ''OnetwothreefourfivesixseveneightNineteneleventwelvethirteenfourteenfifteensixteenDone''"
    using split_text_for_natural_pauses_chunks [of two_loops_text] s2 q by metis
  have d: "pause_sentences sixteen_dots = []" by code_simp
  have c: "split_text_for_natural_pauses sixteen_dots = [sixteen_dots]"
    using split_text_for_natural_pauses_chunks [of sixteen_dots] d by simp
  show ?thesis using s a t b c by simp
qed

section \<open>The keyword scorer\<close>

lemma py_in_sublist: "py_in a b = sublist a b"
  by (induction b) (simp_all add: sublist_Cons_right)

lemma sublist_across:
  assumes "sublist w (a @ c # b)" and "c \<notin> set w"
  shows "sublist w a \<or> sublist w b"
proof -
  from assms(1) obtain ps ss where e: "a @ c # b = ps @ w @ ss"
    by (auto simp: sublist_def)
  then consider us where "a = ps @ us" "us @ c # b = w @ ss"
    | us where "a @ us = ps" "c # b = us @ w @ ss"
    by (auto simp: append_eq_append_conv2)
  then show ?thesis
  proof cases
    case 1
    from 1(2) consider vs where "us = w @ vs" | vs where "us @ vs = w" "c # b = vs @ ss"
      by (auto simp: append_eq_append_conv2)
    then show ?thesis
    proof cases
      case 1
      then have "a = ps @ w @ vs" using \<open>a = ps @ us\<close> by simp
      then show ?thesis by (auto simp: sublist_def)
    next
      case 2
      show ?thesis
      proof (cases vs)
        case Nil
        with 2 have "a = ps @ w @ []" using \<open>a = ps @ us\<close> by simp
        then show ?thesis unfolding sublist_def by blast
      next
        case (Cons v vs')
        with 2 have "c \<in> set w" by auto
        with assms(2) show ?thesis by simp
      qed
    qed
  next
    case 2
    show ?thesis
    proof (cases us)
      case Nil
      with 2 have cb: "c # b = w @ ss" by simp
      show ?thesis
      proof (cases w)
        case Nil
        then show ?thesis by simp
      next
        case (Cons x xs)
        with cb have "c \<in> set w" by auto
        with assms(2) show ?thesis by simp
      qed
    next
      case (Cons u us')
      with 2 have "b = us' @ w @ ss" by simp
      then show ?thesis unfolding sublist_def by blast
    qed
  qed
qed

lemma split_acc_words:
  "cw \<in> set (split_acc acc s) \<Longrightarrow> \<forall>c \<in> set acc. \<not> is_space c \<Longrightarrow>
   cw \<noteq> [] \<and> (\<forall>c \<in> set cw. \<not> is_space c)"
proof (induction s arbitrary: acc)
  case Nil
  then show ?case by (auto split: if_splits)
next
  case (Cons c cs)
  show ?case
  proof (cases "is_space c")
    case True
    with Cons.prems(1) have "cw = acc \<and> acc \<noteq> [] \<or> cw \<in> set (split_acc [] cs)"
      by (auto split: if_splits)
    then show ?thesis
      using Cons.IH [of "[]"] Cons.prems(2) by auto
  next
    case False
    with Cons.prems(1) have "cw \<in> set (split_acc (acc @ [c]) cs)" by simp
    then show ?thesis
      using Cons.IH [of "acc @ [c]"] Cons.prems(2) False by auto
  qed
qed

lemma split_acc_sublist:
  "cw \<in> set (split_acc acc s) \<Longrightarrow> sublist cw (acc @ s)"
proof (induction s arbitrary: acc)
  case Nil
  then show ?case by (auto split: if_splits)
next
  case (Cons c cs)
  show ?case
  proof (cases "is_space c")
    case True
    with Cons.prems have "cw = acc \<or> cw \<in> set (split_acc [] cs)"
      by (auto split: if_splits)
    then show ?thesis
    proof
      assume "cw = acc"
      then show ?thesis by (simp add: sublist_append_rightI)
    next
      assume "cw \<in> set (split_acc [] cs)"
      then have "sublist cw cs" using Cons.IH [of "[]"] by simp
      then have "sublist cw ((acc @ [c]) @ cs)" by (simp only: sublist_append) simp
      then show ?thesis by simp
    qed
  next
    case False
    with Cons.prems have "cw \<in> set (split_acc (acc @ [c]) cs)" by simp
    then show ?thesis using Cons.IH [of "acc @ [c]"] by simp
  qed
qed

lemma split_acc_covers:
  assumes "sublist w (acc @ s)" and "w \<noteq> []" and "\<forall>c \<in> set w. \<not> is_space c"
  shows "\<exists>cw \<in> set (split_acc acc s). sublist w cw"
  using assms(1)
proof (induction s arbitrary: acc)
  case Nil
  then have "acc \<noteq> []" using assms(2) by auto
  with Nil show ?case by simp
next
  case (Cons c cs)
  show ?case
  proof (cases "is_space c")
    case True
    then have "c \<notin> set w" using assms(3) by auto
    with Cons.prems have "sublist w acc \<or> sublist w cs"
      by (rule sublist_across)
    then show ?thesis
    proof
      assume a: "sublist w acc"
      then have "acc \<noteq> []" using assms(2) by auto
      with a True show ?thesis by simp
    next
      assume "sublist w cs"
      then have "\<exists>cw \<in> set (split_acc [] cs). sublist w cw"
        using Cons.IH [of "[]"] by simp
      with True show ?thesis by auto
    qed
  next
    case False
    have "sublist w ((acc @ [c]) @ cs)" using Cons.prems by simp
    then have "\<exists>cw \<in> set (split_acc (acc @ [c]) cs). sublist w cw"
      by (rule Cons.IH)
    with False show ?thesis by simp
  qed
qed

lemma py_split_words:
  "cw \<in> set (py_split s) \<Longrightarrow> cw \<noteq> [] \<and> (\<forall>c \<in> set cw. \<not> is_space c)"
  using split_acc_words [of cw "[]" s] by (simp add: py_split_def)

lemma word_in_text: "cw \<in> set (py_split s) \<Longrightarrow> py_in cw s"
  using split_acc_sublist [of cw "[]" s] by (simp add: py_split_def py_in_sublist)

lemma in_text_in_word:
  "py_in w s \<Longrightarrow> w \<noteq> [] \<Longrightarrow> \<forall>c \<in> set w. \<not> is_space c \<Longrightarrow>
   \<exists>cw \<in> set (py_split s). py_in w cw"
  using split_acc_covers [of w "[]" s] by (simp add: py_split_def py_in_sublist)

lemma question_words_words:
  "w \<in> set (question_words question) \<Longrightarrow> w \<noteq> [] \<and> (\<forall>c \<in> set w. \<not> is_space c)"
  using py_split_words [of w "py_lower question"] by (simp add: question_words_def)

lemma fold_score_word:
  "fold (score_word cl) ws n = n + sum_list (map (\<lambda>w. score_word cl w 0) ws)"
proof (induction ws arbitrary: n)
  case Nil
  then show ?case by simp
next
  case (Cons w ws)
  have "score_word cl w n = n + score_word cl w 0"
    by (simp add: score_word_def)
  then show ?case by (simp add: Cons.IH)
qed

lemma chunk_score_sum:
  "chunk_score qwords chunk = sum_list (map (\<lambda>w. score_word (py_lower chunk) w 0) qwords)"
  by (simp add: chunk_score_def fold_score_word)

lemma score_word_whole:
  "w \<in> set (py_split cl) \<Longrightarrow> score_word cl w 0 = 3"
  by (simp add: score_word_def word_in_text)

lemma score_word_absent:
  assumes "w \<noteq> []" and "\<forall>c \<in> set w. \<not> is_space c"
    and "\<forall>cw \<in> set (py_split cl). \<not> py_in w cw"
  shows "score_word cl w 0 = 0"
proof -
  have "\<not> py_in w cl" using in_text_in_word [OF _ assms(1,2)] assms(3) by blast
  then show ?thesis using assms(3) by (simp add: score_word_def list_ex_iff)
qed

lemma score_word_le: "score_word cl w 0 \<le> 3"
  by (simp add: score_word_def)

lemma sort_descending:
  "sorted_wrt (\<lambda>a b. fst b \<le> fst a) (sort_key (\<lambda>sc. - int (fst sc)) (xs :: (nat \<times> string) list))"
proof -
  have "sorted (map (\<lambda>sc. - int (fst sc)) (sort_key (\<lambda>sc. - int (fst sc)) xs))"
    by (rule sorted_sort_key)
  then show ?thesis by (simp add: sorted_map) 
qed

lemma sort_stable:
  "filter (\<lambda>sc. fst sc = v) (sort_key (\<lambda>sc. - int (fst sc)) (xs :: (nat \<times> string) list))
     = filter (\<lambda>sc. fst sc = v) xs"
proof -
  have "(\<lambda>sc :: nat \<times> string. fst sc = v) = (\<lambda>sc. - int (fst sc) = - int v)"
    by auto
  then show ?thesis by (simp only: sort_key_stable)
qed

lemma sort_key_Nil_iff: "(sort_key f xs = []) = (xs = [])"
proof
  assume "sort_key f xs = []"
  then have "length (sort_key f xs) = 0" by simp
  then show "xs = []" by (simp only: length_sort) simp
qed simp

lemma keyword_chunks_sorted:
  "keyword_chunks cs question top_k =
     (if scored_chunks (question_words question) cs = [] then take top_k cs
      else take top_k (map snd (sort_key (\<lambda>sc. - int (fst sc))
                                  (scored_chunks (question_words question) cs))))"
proof (cases "top_k = 0")
  case True
  then show ?thesis by (simp add: keyword_chunks_def)
next
  case False
  then show ?thesis
    by (auto simp: keyword_chunks_def Let_def take_map sort_key_Nil_iff)
qed

text \<open>
  C3, as the code has it. Without a vector store, the score of a chunk is a sum over
  the question words (lower-cased, without stop words, each once), not over the chunk
  words: a question word adds at most 3, it adds 3 when it equals a word of the
  lower-cased chunk, and nothing when no word of the chunk contains it. The chunks
  with a score above 0 are sorted by descending score, ties in chunk order, and the
  first \<open>top_k\<close> are returned; when no chunk scores above 0 the first \<open>top_k\<close> chunks are
  returned instead.
\<close>

theorem find_relevant_chunks_keyword:
  assumes "vector_store ns = None"
  shows "(let qw = question_words question;
              S = filter (\<lambda>sc. 0 < fst sc) (map (\<lambda>chunk. (chunk_score qw chunk, chunk)) (chunks ns))
          in distinct qw
           \<and> (\<forall>chunk. chunk_score qw chunk
                        = sum_list (map (\<lambda>w. score_word (py_lower chunk) w 0) qw))
           \<and> (\<forall>chunk. \<forall>w \<in> set qw.
                 score_word (py_lower chunk) w 0 \<le> 3
               \<and> (w \<in> set (py_split (py_lower chunk)) \<longrightarrow>
                    score_word (py_lower chunk) w 0 = 3)
               \<and> ((\<forall>cw \<in> set (py_split (py_lower chunk)). \<not> py_in w cw) \<longrightarrow>
                    score_word (py_lower chunk) w 0 = 0))
           \<and> (\<exists>R. mset R = mset S
                  \<and> sorted_wrt (\<lambda>a b. fst b \<le> fst a) R
                  \<and> (\<forall>v. filter (\<lambda>sc. fst sc = v) R = filter (\<lambda>sc. fst sc = v) S)
                  \<and> find_relevant_chunks ns question top_k
                      = (if S = [] then take top_k (chunks ns)
                         else take top_k (map snd R))))"
proof -
  let ?qw = "question_words question"
  let ?S = "filter (\<lambda>sc. 0 < fst sc) (map (\<lambda>chunk. (chunk_score ?qw chunk, chunk)) (chunks ns))"
  let ?R = "sort_key (\<lambda>sc. - int (fst sc)) ?S"
  have S: "scored_chunks ?qw (chunks ns) = ?S" by (simp add: scored_chunks_def)
  have d: "distinct ?qw" by (simp add: question_words_def)
  have s: "\<forall>chunk. chunk_score ?qw chunk
                        = sum_list (map (\<lambda>w. score_word (py_lower chunk) w 0) ?qw)"
    by (simp add: chunk_score_sum)
  have w: "\<forall>chunk. \<forall>w \<in> set ?qw.
                 score_word (py_lower chunk) w 0 \<le> 3
               \<and> (w \<in> set (py_split (py_lower chunk)) \<longrightarrow>
                    score_word (py_lower chunk) w 0 = 3)
               \<and> ((\<forall>cw \<in> set (py_split (py_lower chunk)). \<not> py_in w cw) \<longrightarrow>
                    score_word (py_lower chunk) w 0 = 0)"
  proof (intro allI ballI conjI impI)
    fix chunk w
    assume w: "w \<in> set ?qw"
    show "score_word (py_lower chunk) w 0 \<le> 3" by (rule score_word_le)
    show "score_word (py_lower chunk) w 0 = 3" if "w \<in> set (py_split (py_lower chunk))"
      using that by (rule score_word_whole)
    show "score_word (py_lower chunk) w 0 = 0"
      if "\<forall>cw \<in> set (py_split (py_lower chunk)). \<not> py_in w cw"
      using question_words_words [OF w] that by (simp add: score_word_absent)
  qed
  have r: "mset ?R = mset ?S \<and> sorted_wrt (\<lambda>a b. fst b \<le> fst a) ?R
         \<and> (\<forall>v. filter (\<lambda>sc. fst sc = v) ?R = filter (\<lambda>sc. fst sc = v) ?S)
         \<and> find_relevant_chunks ns question top_k
              = (if ?S = [] then take top_k (chunks ns) else take top_k (map snd ?R))"
    using assms S sort_descending [of ?S] sort_stable [of _ ?S]
    by (simp add: find_relevant_chunks_def keyword_chunks_sorted)
  then have "\<exists>R. mset R = mset ?S \<and> sorted_wrt (\<lambda>a b. fst b \<le> fst a) R
         \<and> (\<forall>v. filter (\<lambda>sc. fst sc = v) R = filter (\<lambda>sc. fst sc = v) ?S)
         \<and> find_relevant_chunks ns question top_k
              = (if ?S = [] then take top_k (chunks ns) else take top_k (map snd R))"
    by blast
  with d s w show ?thesis by (simp only: Let_def) blast
qed

text \<open>
  C3 as stated fails. For the question \<open>cat\<close> the chunk \<open>cat cat\<close> scores 3 in the
  code (one question word) and 6 in the words of the specification (two chunk words),
  so of the chunks \<open>a cat\<close> and \<open>cat cat\<close> the code returns the first and the
  specification's scorer the second. For the question \<open>dog\<close> no chunk scores above 0
  and the code returns the first chunk, where the claim has no chunk to return.
\<close>

theorem keyword_score_per_question_word_counterexample:
  "chunk_score (question_words ''cat'') ''cat cat'' = 3
   \<and> spec_chunk_score (question_words ''cat'') ''cat cat'' = 6
   \<and> find_relevant_chunks two_cats_system ''cat'' 1 = [''a cat'']
   \<and> spec_keyword_chunks (chunks two_cats_system) ''cat'' 1 = [''cat cat'']
   \<and> find_relevant_chunks two_cats_system ''dog'' 1 = [''a cat'']
   \<and> spec_keyword_chunks (chunks two_cats_system) ''dog'' 1 = []"
proof -
  have 1: "chunk_score (question_words ''cat'') ''cat cat'' = 3" by code_simp
  have 2: "spec_chunk_score (question_words ''cat'') ''cat cat'' = 6" by code_simp
  have 3: "keyword_chunks [''a cat'', ''cat cat''] ''cat'' 1 = [''a cat'']" by code_simp
  have 4: "spec_keyword_chunks [''a cat'', ''cat cat''] ''cat'' 1 = [''cat cat'']" by code_simp
  have 5: "keyword_chunks [''a cat'', ''cat cat''] ''dog'' 1 = [''a cat'']" by code_simp
  have 6: "spec_keyword_chunks [''a cat'', ''cat cat''] ''dog'' 1 = []" by code_simp
  show ?thesis
    using 1 2 3 4 5 6 by (simp add: find_relevant_chunks_def two_cats_system_def)
qed

theorem find_relevant_chunks_keyword_witness:
  "vector_store two_cats_system = None
   \<and> question_words ''the Cat'' = [''cat'']
   \<and> chunk_score (question_words ''the Cat'') ''Cat cat'' = 3
   \<and> score_word (py_lower ''A cat'') ''cat'' 0 = 3
   \<and> score_word (py_lower ''A dog'') ''cat'' 0 = 0"
proof -
  have v: "vector_store two_cats_system = None" by (simp add: two_cats_system_def)
  have q: "question_words ''the Cat'' = [''cat'']" by code_simp
  have a: "py_split (py_lower ''A cat'') = [''a'', ''cat'']"
    and b: "py_split (py_lower ''Cat cat'') = [''cat'', ''cat'']"
    and c: "py_split (py_lower ''A dog'') = [''a'', ''dog'']"
    by code_simp+
  have n: "\<not> py_in ''cat'' ''a''" "\<not> py_in ''cat'' ''dog''" by code_simp+
  note t = find_relevant_chunks_keyword [OF v, of "''the Cat''", unfolded Let_def q]
  from t have s1: "score_word (py_lower ''A cat'') ''cat'' 0 = 3"
    using a by simp
  from t have s2: "score_word (py_lower ''Cat cat'') ''cat'' 0 = 3"
    using b by simp
  from t have s3: "score_word (py_lower ''A dog'') ''cat'' 0 = 0"
    using c n by simp
  from t have "chunk_score [''cat''] ''Cat cat''
                 = sum_list (map (\<lambda>w. score_word (py_lower ''Cat cat'') w 0) [''cat''])"
    by blast
  then have s4: "chunk_score (question_words ''the Cat'') ''Cat cat'' = 3"
    using s2 q by simp
  show ?thesis using v q s1 s3 s4 by simp
qed

end
